theory Spec2Isabelle
  imports Complex_Main "HOL-Library.Sublist"
begin

section \<open>Client data model (src/unnamed/part\_004, the TypeScript interfaces)\<close>

text \<open>
  The interfaces \<^verbatim>\<open>LessonFile\<close>, \<^verbatim>\<open>Lesson\<close>, \<^verbatim>\<open>Module\<close>, \<^verbatim>\<open>Course\<close> and
  \<^verbatim>\<open>Progress\<close> as records. Field names carry a prefix because several interfaces
  share the names \<^verbatim>\<open>id\<close>, \<^verbatim>\<open>title\<close> and \<^verbatim>\<open>order\<close>. Identifiers are strings, as in
  the source; \<^verbatim>\<open>number\<close> fields that hold counts and positions are integers.
\<close>

record LessonFile =
  lf_name :: string
  lf_type :: string
  lf_url :: string
  lf_size :: int

record Lesson =
  l_id :: string
  l_title :: string
  l_content :: "LessonFile option"
  l_order :: int

record Module =
  m_id :: string
  m_title :: string
  m_lessons :: "Lesson list"
  m_order :: int

record Course =
  c_id :: string
  c_title :: string
  c_description :: string
  c_category :: string
  c_imageUrl :: "string option"
  c_modules :: "Module list"
  c_isPublished :: bool
  c_teacher_id :: string

record Progress =
  pg_id :: string
  pg_student_id :: string
  pg_lesson_id :: string
  pg_is_completed :: bool
  pg_updated_at :: string

section \<open>Media-kind translation (src/index.tsx, src/unnamed/part\_000)\<close>

text \<open>
  \<^verbatim>\<open>normalizeFileType\<close> returns \<^verbatim>\<open>'pdf'\<close>, \<^verbatim>\<open>'video'\<close> or \<^verbatim>\<open>null\<close> (here \<open>None\<close>);
  \<^verbatim>\<open>mimeType.startsWith('video/')\<close> is the list prefix test.
\<close>

definition normalizeFileType :: "string \<Rightarrow> string option" where
  "normalizeFileType mimeType =
     (if mimeType = ''application/pdf'' then Some ''pdf''
      else if prefix ''video/'' mimeType then Some ''video''
      else None)"

definition enumToMimeType :: "string \<Rightarrow> string" where
  "enumToMimeType enumValue =
     (if enumValue = ''pdf'' then ''application/pdf''
      else if enumValue = ''video'' then ''video/mp4''
      else ''application/pdf'')"

section \<open>Student dashboard progress (src/unnamed/part\_000)\<close>

text \<open>
  \<^verbatim>\<open>getCourseProgress\<close> computes on JavaScript numbers, which are IEEE doubles. The
  counts are exact integers; the division and the multiplication by 100 are each
  rounded to a double. The model takes that rounding as the parameter \<open>fl\<close>, so that
  the results below hold for every rounding that is monotone and exact on the values
  they name. \<^verbatim>\<open>Math.round\<close> rounds to the nearest integer, ties towards
  \<open>+\<infinity>\<close>.
\<close>

definition Math_round :: "real \<Rightarrow> int" where
  "Math_round x = \<lfloor>x + 1 / 2\<rfloor>"

definition totalLessons :: "Course \<Rightarrow> nat" where
  "totalLessons course = foldl (\<lambda>acc m. acc + length (m_lessons m)) 0 (c_modules course)"

definition courseLessonIds :: "Course \<Rightarrow> string list" where
  "courseLessonIds course = concat (map (\<lambda>m. map l_id (m_lessons m)) (c_modules course))"

definition completedLessons :: "Progress list \<Rightarrow> Course \<Rightarrow> nat" where
  "completedLessons progress course =
     length (filter (\<lambda>p. pg_lesson_id p \<in> set (courseLessonIds course) \<and> pg_is_completed p)
       progress)"

definition getCourseProgress :: "(real \<Rightarrow> real) \<Rightarrow> Progress list \<Rightarrow> Course \<Rightarrow> int" where
  "getCourseProgress fl progress course =
     (if totalLessons course = 0 then 0
      else Math_round
             (fl (fl (real (completedLessons progress course) / real (totalLessons course))
                  * 100)))"

section \<open>Course editor (src/components/CoursePreview.tsx, component CourseEditor)\<close>

subsection \<open>JavaScript array and string helpers\<close>

text \<open>
  \<^verbatim>\<open>Array.prototype.splice(start, deleteCount, ...items)\<close>: a negative \<open>start\<close>
  counts from the end, and \<open>start\<close> is clamped to the length of the array.
  \<open>splice_delete\<close> returns the removed elements and the array that remains;
  \<open>splice_insert\<close> is the call with \<open>deleteCount = 0\<close> and one item.
\<close>

definition splice_start :: "int \<Rightarrow> nat \<Rightarrow> nat" where
  "splice_start start len =
     (if start < 0 then nat (max (int len + start) 0) else min (nat start) len)"

definition splice_delete :: "int \<Rightarrow> nat \<Rightarrow> 'a list \<Rightarrow> 'a list \<times> 'a list" where
  "splice_delete start deleteCount items =
     (let k = splice_start start (length items);
          d = min deleteCount (length items - k)
      in (take d (drop k items), take k items @ drop (k + d) items))"

definition splice_insert :: "int \<Rightarrow> 'a \<Rightarrow> 'a list \<Rightarrow> 'a list" where
  "splice_insert start item items =
     (let k = splice_start start (length items)
      in take k items @ item # drop k items)"

text \<open>
  \<^verbatim>\<open>String.prototype.split(sep)\<close> for a separator of one character: the pieces
  between the separators, in order; the result is never empty.
\<close>

fun string_split :: "char \<Rightarrow> string \<Rightarrow> string list" where
  "string_split sep [] = [[]]"
| "string_split sep (c # cs) =
     (if c = sep then [] # string_split sep cs
      else (c # hd (string_split sep cs)) # tl (string_split sep cs))"

text \<open>Reading \<^verbatim>\<open>xs[i]\<close>: \<^verbatim>\<open>undefined\<close> (here \<open>None\<close>) out of range.\<close>

fun js_index :: "'a list \<Rightarrow> nat \<Rightarrow> 'a option" where
  "js_index [] i = None"
| "js_index (x # xs) 0 = Some x"
| "js_index (x # xs) (Suc i) = js_index xs i"

subsection \<open>Reordering after a drag: onDragEnd\<close>

record DraggableLocation =
  dl_droppableId :: string
  dl_index :: int

record DropResult =
  dr_source :: DraggableLocation
  dr_destination :: "DraggableLocation option"
  dr_type :: string

text \<open>
  Both branches of \<^verbatim>\<open>onDragEnd\<close> run the same three statements on a copy of the
  list: \<^verbatim>\<open>const [reorderedItem] = items.splice(source.index, 1)\<close>, then
  \<^verbatim>\<open>items.splice(destination.index, 0, reorderedItem)\<close>. When the source index is
  out of range nothing is removed, \<^verbatim>\<open>reorderedItem\<close> is \<^verbatim>\<open>undefined\<close>, and the
  source inserts that \<^verbatim>\<open>undefined\<close>, which the following \<^verbatim>\<open>map\<close> turns into an
  object with an \<^verbatim>\<open>order\<close> field only. Such a list is no list of modules or lessons;
  the model returns \<open>None\<close> for it.
\<close>

definition move_item :: "int \<Rightarrow> int \<Rightarrow> 'a list \<Rightarrow> 'a list option" where
  "move_item sourceIndex destinationIndex items =
     (case splice_delete sourceIndex 1 items of
        ([], _) \<Rightarrow> None
      | (reorderedItem # _, items') \<Rightarrow>
          Some (splice_insert destinationIndex reorderedItem items'))"

definition reindex_modules :: "Module list \<Rightarrow> Module list" where
  "reindex_modules items = map (\<lambda>(index, modl). modl\<lparr>m_order := int index\<rparr>) (enumerate 0 items)"

definition reindex_lessons :: "Lesson list \<Rightarrow> Lesson list" where
  "reindex_lessons items = map (\<lambda>(index, less). less\<lparr>l_order := int index\<rparr>) (enumerate 0 items)"

text \<open>
  The result is the new value of the \<^verbatim>\<open>course\<close> state; every early \<^verbatim>\<open>return\<close>
  leaves the state as it was.
\<close>

definition onDragEnd :: "DropResult \<Rightarrow> Course \<Rightarrow> Course option" where
  "onDragEnd result course =
     (case dr_destination result of
        None \<Rightarrow> Some course
      | Some destination \<Rightarrow>
          if dr_type result = ''MODULES'' then
            (case move_item (dl_index (dr_source result)) (dl_index destination)
                    (c_modules course) of
               None \<Rightarrow> None
             | Some items \<Rightarrow> Some (course\<lparr>c_modules := reindex_modules items\<rparr>))
          else if prefix ''LESSONS_'' (dr_type result) then
            (case js_index (string_split (CHR ''_'') (dr_type result)) 1 of
               None \<Rightarrow> Some course
             | Some moduleId \<Rightarrow>
                 (case find (\<lambda>m. m_id m = moduleId) (c_modules course) of
                    None \<Rightarrow> Some course
                  | Some modul \<Rightarrow>
                      (case move_item (dl_index (dr_source result)) (dl_index destination)
                              (m_lessons modul) of
                         None \<Rightarrow> None
                       | Some items \<Rightarrow>
                           Some (course\<lparr>c_modules :=
                             map (\<lambda>m. if m_id m = moduleId
                                       then m\<lparr>m_lessons := reindex_lessons items\<rparr> else m)
                               (c_modules course)\<rparr>))))
          else Some course)"

subsection \<open>Lesson file upload: handleFileChange\<close>

record File =
  f_name :: string
  f_type :: string
  f_size :: int

datatype UploadStatus = Idle | Preparing | Uploading | Completed | Error

datatype toast = ToastError string | ToastSuccess string

record StorageUpload =
  su_bucket :: string
  su_path :: string
  su_file :: File

text \<open>
  The component state the handler reads and writes, together with the effects it has
  had so far: the toasts shown and the calls made to
  \<^verbatim>\<open>supabase.storage.from(bucket).upload\<close>.
\<close>

record EditorState =
  es_course :: Course
  es_uploadProgress :: "string \<rightharpoonup> nat"
  es_uploadStatus :: "string \<rightharpoonup> UploadStatus"
  es_toasts :: "toast list"
  es_uploads :: "StorageUpload list"

text \<open>
  What the handler obtains from outside: the value of \<^verbatim>\<open>uuidv4()\<close>, how often the
  progress interval fires before the upload settles, the outcome of the upload (an
  error message, or \<^verbatim>\<open>data.path\<close>), and \<^verbatim>\<open>getPublicUrl\<close>.
\<close>

record UploadEnv =
  env_uuid :: string
  env_ticks :: nat
  env_upload :: "string + string"
  env_publicUrl :: "string \<Rightarrow> string"

definition progress_tick :: "string \<Rightarrow> (string \<rightharpoonup> nat) \<Rightarrow> (string \<rightharpoonup> nat)" where
  "progress_tick lessonId prev =
     (let current = (case prev lessonId of None \<Rightarrow> 0 | Some v \<Rightarrow> v)
      in if current \<ge> 90 then prev else prev(lessonId \<mapsto> current + 10))"

definition attach_file :: "string \<Rightarrow> string \<Rightarrow> LessonFile \<Rightarrow> Course \<Rightarrow> Course" where
  "attach_file moduleId lessonId newFile prevCourse =
     prevCourse\<lparr>c_modules :=
       map (\<lambda>m. if m_id m = moduleId
                 then m\<lparr>m_lessons :=
                        map (\<lambda>l. if l_id l = lessonId then l\<lparr>l_content := Some newFile\<rparr> else l)
                          (m_lessons m)\<rparr>
                 else m)
         (c_modules prevCourse)\<rparr>"

text \<open>
  \<open>files\<close> is \<^verbatim>\<open>e.target.files\<close> (\<open>None\<close> for \<^verbatim>\<open>null\<close>). A string is falsy when
  it is empty, so \<^verbatim>\<open>!course.teacher_id\<close> is the test for the empty string.
\<close>

definition handleFileChange ::
  "UploadEnv \<Rightarrow> File list option \<Rightarrow> string \<Rightarrow> string \<Rightarrow> EditorState \<Rightarrow> EditorState" where
  "handleFileChange env files moduleId lessonId st =
     (case files of
        None \<Rightarrow> st
      | Some [] \<Rightarrow> st
      | Some (file # _) \<Rightarrow>
          if c_teacher_id (es_course st) = [] then st
          else if f_type file \<noteq> ''video/mp4'' \<and> f_type file \<noteq> ''application/pdf'' then
            st\<lparr>es_toasts := es_toasts st @
              [ToastError ''Tipo de archivo no soportado. Sube un video MP4 o un PDF.'']\<rparr>
          else
            let fileExt = last (string_split (CHR ''.'') (f_name file));
                filePath = c_teacher_id (es_course st) @ ''/'' @ c_id (es_course st) @ ''/'' @
                           moduleId @ ''/'' @ lessonId @ ''/'' @ env_uuid env @ ''.'' @ fileExt;
                st1 = st\<lparr>es_uploadStatus := (es_uploadStatus st)(lessonId \<mapsto> Preparing),
                         es_uploadProgress := (es_uploadProgress st)(lessonId \<mapsto> 0)\<rparr>;
                st2 = st1\<lparr>es_uploadStatus := (es_uploadStatus st1)(lessonId \<mapsto> Uploading)\<rparr>;
                st3 = st2\<lparr>es_uploadProgress :=
                           (progress_tick lessonId ^^ env_ticks env) (es_uploadProgress st2),
                         es_uploads := es_uploads st2 @
                           [\<lparr>su_bucket = ''lesson-files'', su_path = filePath, su_file = file\<rparr>]\<rparr>
            in (case env_upload env of
                  Inl message \<Rightarrow>
                    st3\<lparr>es_toasts := es_toasts st3 @
                           [ToastError (''Error al subir el archivo: '' @ message)],
                        es_uploadStatus := (es_uploadStatus st3)(lessonId \<mapsto> Error),
                        es_uploadProgress := (es_uploadProgress st3)(lessonId := None)\<rparr>
                | Inr path \<Rightarrow>
                    let newFile = \<lparr>lf_name = f_name file, lf_type = f_type file,
                                   lf_url = env_publicUrl env path, lf_size = f_size file\<rparr>;
                        st4 = st3\<lparr>es_uploadStatus := (es_uploadStatus st3)(lessonId \<mapsto> Completed),
                                 es_uploadProgress := (es_uploadProgress st3)(lessonId \<mapsto> 100)\<rparr>
                    in st4\<lparr>es_course := attach_file moduleId lessonId newFile (es_course st4),
                           es_uploadStatus := (es_uploadStatus st4)(lessonId := None),
                           es_uploadProgress := (es_uploadProgress st4)(lessonId := None)\<rparr>))"

subsection \<open>Vocabulary for statements about reordering\<close>

text \<open>
  These predicates are not part of the program; the results on \<open>onDragEnd\<close> are
  stated with them. \<open>is_move i j old new\<close>: \<open>new\<close> holds the element that was at
  position \<open>i\<close> of \<open>old\<close> at position \<open>j\<close>, and the other elements in their old
  relative order. A list has a dense order when the \<^verbatim>\<open>order\<close> field of its \<open>k\<close>-th
  element is \<open>k\<close>, counting from 0.
\<close>

definition is_move :: "nat \<Rightarrow> nat \<Rightarrow> 'a list \<Rightarrow> 'a list \<Rightarrow> bool" where
  "is_move i j old new \<longleftrightarrow>
     length new = length old \<and> new ! j = old ! i \<and>
     take j new @ drop (Suc j) new = take i old @ drop (Suc i) old"

definition dense_module_order :: "Module list \<Rightarrow> bool" where
  "dense_module_order ms \<longleftrightarrow> map m_order ms = map int [0..<length ms]"

definition dense_lesson_order :: "Lesson list \<Rightarrow> bool" where
  "dense_lesson_order ls \<longleftrightarrow> map l_order ls = map int [0..<length ls]"

section \<open>Database (src/supabase)\<close>

subsection \<open>SQL values and three-valued logic\<close>

text \<open>
  A nullable SQL value is an \<open>option\<close>, \<open>None\<close> being \<^verbatim>\<open>NULL\<close>; an SQL boolean
  is a \<open>bool option\<close>. A condition of \<^verbatim>\<open>IF\<close> or \<^verbatim>\<open>WHERE\<close> holds only when it is
  true (\<open>is_true\<close>): \<^verbatim>\<open>NULL\<close> counts as not holding. Identifiers are \<^verbatim>\<open>uuid\<close>
  values; timestamps are points on an integer time line.
\<close>

type_synonym uuid = string

type_synonym timestamptz = int

definition is_true :: "bool option \<Rightarrow> bool" where
  "is_true c \<longleftrightarrow> c = Some True"

definition sql_is_null :: "'a option \<Rightarrow> bool option" where
  "sql_is_null x = Some (x = None)"

definition sql_eq :: "'a option \<Rightarrow> 'a option \<Rightarrow> bool option" where
  "sql_eq a b = (case (a, b) of (Some x, Some y) \<Rightarrow> Some (x = y) | _ \<Rightarrow> None)"

definition sql_ne :: "'a option \<Rightarrow> 'a option \<Rightarrow> bool option" where
  "sql_ne a b = (case (a, b) of (Some x, Some y) \<Rightarrow> Some (x \<noteq> y) | _ \<Rightarrow> None)"

definition sql_not :: "bool option \<Rightarrow> bool option" where
  "sql_not a = map_option Not a"

definition sql_or :: "bool option \<Rightarrow> bool option \<Rightarrow> bool option" where
  "sql_or a b =
     (if a = Some True \<or> b = Some True then Some True
      else if a = Some False \<and> b = Some False then Some False
      else None)"

definition sql_and :: "bool option \<Rightarrow> bool option \<Rightarrow> bool option" where
  "sql_and a b =
     (if a = Some False \<or> b = Some False then Some False
      else if a = Some True \<and> b = Some True then Some True
      else None)"

text \<open>
  \<^verbatim>\<open>x IN (subquery)\<close>: true when a row equals \<open>x\<close>; otherwise \<^verbatim>\<open>NULL\<close> when \<open>x\<close> or a
  row is \<^verbatim>\<open>NULL\<close> and the subquery is not empty; otherwise false.
\<close>

definition sql_in :: "'a option \<Rightarrow> 'a option list \<Rightarrow> bool option" where
  "sql_in x ys =
     (case x of
        None \<Rightarrow> if ys = [] then Some False else None
      | Some v \<Rightarrow>
          if Some v \<in> set ys then Some True
          else if None \<in> set ys then None
          else Some False)"

definition sql_not_in :: "'a option \<Rightarrow> 'a option list \<Rightarrow> bool option" where
  "sql_not_in x ys = sql_not (sql_in x ys)"

text \<open>\<^verbatim>\<open>NULLIF(a, b)\<close> for a constant \<open>b\<close>.\<close>

definition nullif :: "'a option \<Rightarrow> 'a \<Rightarrow> 'a option" where
  "nullif a b = (if a = Some b then None else a)"

subsection \<open>Errors\<close>

text \<open>
  The errors a statement of the modelled functions can raise, named after their
  SQLSTATE conditions. \<open>raise_exception\<close> is PL/pgSQL's \<^verbatim>\<open>RAISE EXCEPTION\<close>.
\<close>

datatype sql_error =
    raise_exception string
  | not_null_violation string string
  | foreign_key_violation string
  | unique_violation string
  | check_violation string
  | numeric_value_out_of_range
  | invalid_text_representation
  | invalid_parameter_value
  | insufficient_privilege

definition seq :: "'e + 'a \<Rightarrow> ('a \<Rightarrow> 'e + 'b) \<Rightarrow> 'e + 'b" where
  "seq m f = (case m of Inl e \<Rightarrow> Inl e | Inr x \<Rightarrow> f x)"

definition not_null :: "string \<Rightarrow> string \<Rightarrow> 'a option \<Rightarrow> sql_error + 'a" where
  "not_null table column v =
     (case v of None \<Rightarrow> Inl (not_null_violation table column) | Some x \<Rightarrow> Inr x)"

subsection \<open>The payload\<close>

text \<open>
  The \<^verbatim>\<open>jsonb\<close> argument of \<^verbatim>\<open>save_course_with_children\<close>, typed as
  \<^verbatim>\<open>handleSaveCourse\<close> builds it (src/index.tsx). A scalar field holds the result of
  \<^verbatim>\<open>->>\<close>: \<open>None\<close> when the key is absent or holds JSON \<^verbatim>\<open>null\<close>. The fields read
  with \<^verbatim>\<open>->\<close> (\<^verbatim>\<open>modules\<close>, \<^verbatim>\<open>lessons\<close>, \<^verbatim>\<open>content\<close>) keep the difference
  between an absent key (SQL \<^verbatim>\<open>NULL\<close>) and JSON \<^verbatim>\<open>null\<close>. Identifiers are valid
  \<^verbatim>\<open>uuid\<close>s and \<^verbatim>\<open>is_published\<close> is a boolean: the casts \<^verbatim>\<open>::uuid\<close> and
  \<^verbatim>\<open>::boolean\<close> of malformed text are outside the model. Numbers are integers.
\<close>

datatype 'a jsonb = Absent | JsonNull | Value 'a

record content_json =
  cn_name :: "string option"
  cn_type :: "string option"
  cn_url :: "string option"
  cn_size :: "int option"

record lesson_json =
  lj_id :: "uuid option"
  lj_title :: "string option"
  lj_order :: "int option"
  lj_content :: "content_json jsonb"

record module_json =
  mj_id :: "uuid option"
  mj_title :: "string option"
  mj_order :: "int option"
  mj_lessons :: "lesson_json list jsonb"

record course_json =
  cj_id :: "uuid option"
  cj_title :: "string option"
  cj_description :: "string option"
  cj_category :: "string option"
  cj_image_url :: "string option"
  cj_is_published :: "bool option"
  cj_teacher_id :: "uuid option"
  cj_modules :: "module_json list jsonb"

text \<open>\<^verbatim>\<open>j IS NOT NULL\<close> and \<^verbatim>\<open>j != 'null'::jsonb\<close> for the result \<open>j\<close> of \<^verbatim>\<open>->\<close>.\<close>

definition jsonb_is_not_null :: "'a jsonb \<Rightarrow> bool option" where
  "jsonb_is_not_null j = Some (j \<noteq> Absent)"

definition jsonb_ne_null :: "'a jsonb \<Rightarrow> bool option" where
  "jsonb_ne_null j = (case j of Absent \<Rightarrow> None | JsonNull \<Rightarrow> Some False | Value _ \<Rightarrow> Some True)"

text \<open>
  \<^verbatim>\<open>jsonb_array_elements\<close> is strict: on SQL \<^verbatim>\<open>NULL\<close> it yields no row. On JSON
  \<^verbatim>\<open>null\<close> it raises ``cannot extract elements from a scalar''.
\<close>

definition jsonb_array_elements :: "'a list jsonb \<Rightarrow> sql_error + 'a list" where
  "jsonb_array_elements j =
     (case j of Absent \<Rightarrow> Inr [] | JsonNull \<Rightarrow> Inl invalid_parameter_value | Value xs \<Rightarrow> Inr xs)"

text \<open>\<^verbatim>\<open>lesson_json->'content'->>key\<close>: \<^verbatim>\<open>NULL\<close> unless the content is an object.\<close>

definition content_field :: "(content_json \<Rightarrow> 'a option) \<Rightarrow> content_json jsonb \<Rightarrow> 'a option" where
  "content_field f j = (case j of Value c \<Rightarrow> f c | _ \<Rightarrow> None)"

text \<open>The casts \<^verbatim>\<open>::integer\<close> and \<^verbatim>\<open>::bigint\<close> of a number.\<close>

definition cast_integer :: "int option \<Rightarrow> sql_error + int option" where
  "cast_integer v =
     (case v of
        None \<Rightarrow> Inr None
      | Some n \<Rightarrow> if - (2 ^ 31) \<le> n \<and> n < 2 ^ 31 then Inr (Some n)
                  else Inl numeric_value_out_of_range)"

definition cast_bigint :: "int option \<Rightarrow> sql_error + int option" where
  "cast_bigint v =
     (case v of
        None \<Rightarrow> Inr None
      | Some n \<Rightarrow> if - (2 ^ 63) \<le> n \<and> n < 2 ^ 63 then Inr (Some n)
                  else Inl numeric_value_out_of_range)"

text \<open>
  Modelled from the spec: the enumeration \<^verbatim>\<open>public.file\_type\<close>. The migration
  that creates the type is not among the sources; its labels are the two media-kind
  tokens \<^verbatim>\<open>pdf\<close> and \<^verbatim>\<open>video\<close> of the spec's external interfaces, the same two
  that the \<^verbatim>\<open>CHECK\<close> constraint of SETUP\_COMPLETO\_NUEVO\_PROYECTO.sql admits
  and \<^verbatim>\<open>normalizeFileType\<close> produces.
\<close>

datatype file_type = Pdf | Video

definition cast_file_type :: "string option \<Rightarrow> sql_error + file_type option" where
  "cast_file_type v =
     (case v of
        None \<Rightarrow> Inr None
      | Some s \<Rightarrow> if s = ''pdf'' then Inr (Some Pdf)
                  else if s = ''video'' then Inr (Some Video)
                  else Inl invalid_text_representation)"

subsection \<open>Tables\<close>

text \<open>
  A table with a primary key \<^verbatim>\<open>id\<close> is a map from the key to the other columns
  (SETUP\_COMPLETO\_NUEVO\_PROYECTO.sql, section 1). \<^verbatim>\<open>progress\<close> is kept as a
  list of rows, so that its \<^verbatim>\<open>UNIQUE(student_id, lesson_id)\<close> constraint is a
  property to be stated and not one built into the representation. Of \<^verbatim>\<open>profiles\<close>
  only the set of keys matters here. \<^verbatim>\<open>enrollments\<close> is not touched by any modelled
  statement and is left out.
\<close>

record courses_row =
  cr_teacher_id :: uuid
  cr_title :: string
  cr_description :: string
  cr_category :: string
  cr_image_url :: "string option"
  cr_is_published :: bool
  cr_created_at :: timestamptz
  cr_updated_at :: timestamptz

record modules_row =
  mr_course_id :: uuid
  mr_title :: string
  mr_order :: int
  mr_created_at :: timestamptz

record lessons_row =
  lr_module_id :: uuid
  lr_title :: string
  lr_order :: int
  lr_file_name :: "string option"
  lr_file_type :: "file_type option"
  lr_file_url :: "string option"
  lr_file_size :: "int option"
  lr_created_at :: timestamptz

record progress_row =
  pr_id :: uuid
  pr_student_id :: uuid
  pr_lesson_id :: uuid
  pr_is_completed :: bool
  pr_updated_at :: timestamptz

record database =
  db_profiles :: "uuid set"
  db_courses :: "uuid \<rightharpoonup> courses_row"
  db_modules :: "uuid \<rightharpoonup> modules_row"
  db_lessons :: "uuid \<rightharpoonup> lessons_row"
  db_progress :: "progress_row list"

subsection \<open>Statements\<close>

text \<open>
  A statement maps the database to an error or to the new database; a failed statement
  changes nothing. \<^verbatim>\<open>INSERT ... ON CONFLICT (id) DO UPDATE\<close>: the \<^verbatim>\<open>NOT NULL\<close>
  constraints are checked on the proposed row, in column order, before the conflict is
  looked for; on a conflict the listed columns of the existing row are overwritten and
  the others (the parent key among them) are kept; otherwise the row is inserted with
  \<^verbatim>\<open>created_at = now()\<close> and its foreign key is checked.
\<close>

definition upsert_course ::
  "timestamptz \<Rightarrow> uuid option \<Rightarrow> string option \<Rightarrow> string option \<Rightarrow> string option \<Rightarrow>
   string option \<Rightarrow> bool option \<Rightarrow> uuid option \<Rightarrow> database \<Rightarrow> sql_error + database" where
  "upsert_course now id_val title description category image_url is_published teacher_id db =
     seq (not_null ''courses'' ''id'' id_val) (\<lambda>id'.
     seq (not_null ''courses'' ''teacher_id'' teacher_id) (\<lambda>teacher_id'.
     seq (not_null ''courses'' ''title'' title) (\<lambda>title'.
     seq (not_null ''courses'' ''description'' description) (\<lambda>description'.
     seq (not_null ''courses'' ''category'' category) (\<lambda>category'.
     seq (not_null ''courses'' ''is_published'' is_published) (\<lambda>is_published'.
       case db_courses db id' of
         Some row \<Rightarrow>
           Inr (db\<lparr>db_courses := (db_courses db)(id' \<mapsto>
                  row\<lparr>cr_title := title', cr_description := description',
                      cr_category := category', cr_image_url := image_url,
                      cr_is_published := is_published'\<rparr>)\<rparr>)
       | None \<Rightarrow>
           if teacher_id' \<in> db_profiles db then
             Inr (db\<lparr>db_courses := (db_courses db)(id' \<mapsto>
                    \<lparr>cr_teacher_id = teacher_id', cr_title = title',
                     cr_description = description', cr_category = category',
                     cr_image_url = image_url, cr_is_published = is_published',
                     cr_created_at = now, cr_updated_at = now\<rparr>)\<rparr>)
           else Inl (foreign_key_violation ''courses_teacher_id_fkey'')))))))"

definition upsert_module ::
  "timestamptz \<Rightarrow> uuid option \<Rightarrow> uuid option \<Rightarrow> string option \<Rightarrow> int option \<Rightarrow>
   database \<Rightarrow> sql_error + database" where
  "upsert_module now id_val course_id title order_val db =
     seq (not_null ''modules'' ''id'' id_val) (\<lambda>id'.
     seq (not_null ''modules'' ''course_id'' course_id) (\<lambda>course_id'.
     seq (not_null ''modules'' ''title'' title) (\<lambda>title'.
     seq (not_null ''modules'' ''order'' order_val) (\<lambda>order_val'.
       case db_modules db id' of
         Some row \<Rightarrow>
           Inr (db\<lparr>db_modules := (db_modules db)(id' \<mapsto>
                  row\<lparr>mr_title := title', mr_order := order_val'\<rparr>)\<rparr>)
       | None \<Rightarrow>
           if db_courses db course_id' \<noteq> None then
             Inr (db\<lparr>db_modules := (db_modules db)(id' \<mapsto>
                    \<lparr>mr_course_id = course_id', mr_title = title', mr_order = order_val',
                     mr_created_at = now\<rparr>)\<rparr>)
           else Inl (foreign_key_violation ''modules_course_id_fkey'')))))"

definition upsert_lesson ::
  "timestamptz \<Rightarrow> uuid option \<Rightarrow> uuid option \<Rightarrow> string option \<Rightarrow> int option \<Rightarrow>
   string option \<Rightarrow> file_type option \<Rightarrow> string option \<Rightarrow> int option \<Rightarrow>
   database \<Rightarrow> sql_error + database" where
  "upsert_lesson now id_val module_id title order_val file_name ftype file_url file_size db =
     seq (not_null ''lessons'' ''id'' id_val) (\<lambda>id'.
     seq (not_null ''lessons'' ''module_id'' module_id) (\<lambda>module_id'.
     seq (not_null ''lessons'' ''title'' title) (\<lambda>title'.
     seq (not_null ''lessons'' ''order'' order_val) (\<lambda>order_val'.
       case db_lessons db id' of
         Some row \<Rightarrow>
           Inr (db\<lparr>db_lessons := (db_lessons db)(id' \<mapsto>
                  row\<lparr>lr_title := title', lr_order := order_val', lr_file_name := file_name,
                      lr_file_type := ftype, lr_file_url := file_url,
                      lr_file_size := file_size\<rparr>)\<rparr>)
       | None \<Rightarrow>
           if db_modules db module_id' \<noteq> None then
             Inr (db\<lparr>db_lessons := (db_lessons db)(id' \<mapsto>
                    \<lparr>lr_module_id = module_id', lr_title = title', lr_order = order_val',
                     lr_file_name = file_name, lr_file_type = ftype,
                     lr_file_url = file_url, lr_file_size = file_size,
                     lr_created_at = now\<rparr>)\<rparr>)
           else Inl (foreign_key_violation ''lessons_module_id_fkey'')))))"

text \<open>
  \<^verbatim>\<open>DELETE FROM lessons WHERE ...\<close> removes the rows that satisfy the condition and,
  through \<^verbatim>\<open>ON DELETE CASCADE\<close>, the \<^verbatim>\<open>progress\<close> rows of those lessons.
  \<^verbatim>\<open>DELETE FROM modules WHERE ...\<close> cascades to the lessons of the removed modules.
\<close>

definition delete_lessons :: "(uuid \<Rightarrow> lessons_row \<Rightarrow> bool) \<Rightarrow> database \<Rightarrow> database" where
  "delete_lessons cond db =
     db\<lparr>db_lessons :=
          (\<lambda>k. case db_lessons db k of
                   None \<Rightarrow> None
                 | Some row \<Rightarrow> if cond k row then None else Some row),
        db_progress :=
          filter (\<lambda>p. case db_lessons db (pr_lesson_id p) of
                         None \<Rightarrow> True
                       | Some row \<Rightarrow> \<not> cond (pr_lesson_id p) row)
            (db_progress db)\<rparr>"

definition delete_modules :: "(uuid \<Rightarrow> modules_row \<Rightarrow> bool) \<Rightarrow> database \<Rightarrow> database" where
  "delete_modules cond db =
     delete_lessons
       (\<lambda>_ lesson. case db_modules db (lr_module_id lesson) of
                      None \<Rightarrow> False
                    | Some row \<Rightarrow> cond (lr_module_id lesson) row)
       (db\<lparr>db_modules :=
             (\<lambda>k. case db_modules db k of
                      None \<Rightarrow> None
                    | Some row \<Rightarrow> if cond k row then None else Some row)\<rparr>)"

subsection \<open>Function bodies and the transaction around them\<close>

text \<open>
  Inside a function body the statements run one after the other on the working state
  of the transaction. The first error ends the body; it is returned together with the
  working state reached at that point, which holds the writes of the statements before
  it. Neither version of \<^verbatim>\<open>save_course_with_children\<close> has an \<^verbatim>\<open>EXCEPTION\<close>
  block, so no error is caught inside.
\<close>

type_synonym outcome = "(sql_error \<times> database) + database"

definition exec :: "(database \<Rightarrow> sql_error + 'a) \<Rightarrow> database \<Rightarrow> (sql_error \<times> database) + 'a" where
  "exec stmt db = (case stmt db of Inl e \<Rightarrow> Inl (e, db) | Inr x \<Rightarrow> Inr x)"

fun for_loop :: "('a \<Rightarrow> database \<Rightarrow> outcome) \<Rightarrow> 'a list \<Rightarrow> database \<Rightarrow> outcome" where
  "for_loop body [] db = Inr db"
| "for_loop body (x # xs) db = seq (body x db) (for_loop body xs)"

text \<open>
  The call \<^verbatim>\<open>supabase.rpc(...)\<close> runs the function in a transaction of its own.
  When the body ends with an error the transaction is rolled back: the caller gets the
  error, and the database is the one from before the call. Otherwise the working
  state is committed. Rolling back is the work of the database server, not of the
  function: \<open>rpc\<close> takes it as given, and nothing below derives it.
\<close>

definition rpc :: "(database \<Rightarrow> outcome) \<Rightarrow> database \<Rightarrow> sql_error option \<times> database" where
  "rpc body db =
     (case body db of
        Inl (e, working) \<Rightarrow> (Some e, db)
      | Inr db' \<Rightarrow> (None, db'))"

subsection \<open>save\_course\_with\_children (migrations/20250101000012\_fix\_null\_content\_handling.sql)\<close>

text \<open>
  The body of the \<^verbatim>\<open>IF\<close> over the content of a lesson: one of two \<^verbatim>\<open>INSERT ...
  ON CONFLICT\<close> statements. The casts in the \<^verbatim>\<open>VALUES\<close> list are evaluated before
  the row is formed.
\<close>

definition save_lesson ::
  "timestamptz \<Rightarrow> uuid option \<Rightarrow> lesson_json \<Rightarrow> database \<Rightarrow> sql_error + database" where
  "save_lesson now module_id_val lesson_json db =
     (if is_true (sql_and (jsonb_is_not_null (lj_content lesson_json))
                          (jsonb_ne_null (lj_content lesson_json))) then
        seq (cast_integer (lj_order lesson_json)) (\<lambda>order_val.
        seq (cast_file_type (content_field cn_type (lj_content lesson_json))) (\<lambda>ftype.
        seq (cast_bigint (content_field cn_size (lj_content lesson_json))) (\<lambda>fsize.
          upsert_lesson now (lj_id lesson_json) module_id_val (lj_title lesson_json) order_val
            (content_field cn_name (lj_content lesson_json)) ftype
            (content_field cn_url (lj_content lesson_json)) fsize db)))
      else
        seq (cast_integer (lj_order lesson_json)) (\<lambda>order_val.
          upsert_lesson now (lj_id lesson_json) module_id_val (lj_title lesson_json) order_val
            None None None None db))"

definition save_module_row ::
  "timestamptz \<Rightarrow> uuid option \<Rightarrow> module_json \<Rightarrow> database \<Rightarrow> sql_error + database" where
  "save_module_row now course_id_val module_json db =
     seq (cast_integer (mj_order module_json)) (\<lambda>order_val.
       upsert_module now (mj_id module_json) course_id_val (mj_title module_json) order_val db)"

text \<open>
  \<^verbatim>\<open>DELETE FROM lessons WHERE module_id = module_id_val AND id NOT IN (SELECT
  (l->>'id')::uuid FROM jsonb_array_elements(module_json->'lessons') AS l)\<close>.
\<close>

definition delete_lessons_not_in ::
  "uuid option \<Rightarrow> lesson_json list jsonb \<Rightarrow> database \<Rightarrow> sql_error + database" where
  "delete_lessons_not_in module_id_val lessons db =
     seq (jsonb_array_elements lessons) (\<lambda>ls.
       Inr (delete_lessons
              (\<lambda>k row. is_true (sql_and (sql_eq (Some (lr_module_id row)) module_id_val)
                                          (sql_not_in (Some k) (map lj_id ls))))
              db))"

definition delete_modules_not_in ::
  "uuid option \<Rightarrow> module_json list jsonb \<Rightarrow> database \<Rightarrow> sql_error + database" where
  "delete_modules_not_in course_id_val modules db =
     seq (jsonb_array_elements modules) (\<lambda>ms.
       Inr (delete_modules
              (\<lambda>k row. is_true (sql_and (sql_eq (Some (mr_course_id row)) course_id_val)
                                          (sql_not_in (Some k) (map mj_id ms))))
              db))"

text \<open>One round of the loop over the modules.\<close>

definition save_module :: "timestamptz \<Rightarrow> uuid option \<Rightarrow> module_json \<Rightarrow> database \<Rightarrow> outcome" where
  "save_module now course_id_val module_json db =
     (let module_id_val = mj_id module_json in
      seq (exec (save_module_row now course_id_val module_json) db) (\<lambda>db1.
      seq (exec (\<lambda>_. jsonb_array_elements (mj_lessons module_json)) db1) (\<lambda>lessons.
      seq (for_loop (\<lambda>lesson_json. exec (save_lesson now module_id_val lesson_json))
             lessons db1) (\<lambda>db2.
        exec (delete_lessons_not_in module_id_val (mj_lessons module_json)) db2))))"

text \<open>
  The function. \<open>auth_uid\<close> is the value of \<^verbatim>\<open>auth.uid()\<close>, \<^verbatim>\<open>NULL\<close> for a caller
  without a session; \<open>now\<close> is \<^verbatim>\<open>now()\<close>, the start of the transaction.
\<close>

definition save_course_with_children ::
  "uuid option \<Rightarrow> timestamptz \<Rightarrow> course_json \<Rightarrow> database \<Rightarrow> outcome" where
  "save_course_with_children auth_uid now course_data db =
     (let course_id_val = cj_id course_data;
          teacher_id_val = cj_teacher_id course_data
      in if is_true (sql_or (sql_is_null teacher_id_val) (sql_ne teacher_id_val auth_uid)) then
           Inl (raise_exception ''User does not have permission to edit this course'', db)
         else
           seq (exec (upsert_course now course_id_val (cj_title course_data)
                        (cj_description course_data) (cj_category course_data)
                        (nullif (cj_image_url course_data) ''null'')
                        (cj_is_published course_data) teacher_id_val) db) (\<lambda>db1.
           seq (exec (\<lambda>_. jsonb_array_elements (cj_modules course_data)) db1) (\<lambda>modules.
           seq (for_loop (save_module now course_id_val) modules db1) (\<lambda>db2.
             exec (delete_modules_not_in course_id_val (cj_modules course_data)) db2))))"

definition rpc_save_course_with_children ::
  "uuid option \<Rightarrow> timestamptz \<Rightarrow> course_json \<Rightarrow> database \<Rightarrow> sql_error option \<times> database" where
  "rpc_save_course_with_children auth_uid now course_data =
     rpc (save_course_with_children auth_uid now course_data)"

subsection \<open>save\_course\_with\_children (SETUP\_COMPLETO\_NUEVO\_PROYECTO.sql, section 4.3)\<close>

text \<open>
  The script for a new project defines the function again, in another way: no test of
  the caller, the course updated with \<^verbatim>\<open>updated_at = now()\<close>, all modules of the
  course deleted, and the modules and lessons of the payload inserted with plain
  \<^verbatim>\<open>INSERT\<close>s. A plain \<^verbatim>\<open>INSERT\<close> checks \<^verbatim>\<open>NOT NULL\<close> and \<^verbatim>\<open>CHECK\<close>
  constraints, then the primary key, then the foreign key. In this schema
  \<^verbatim>\<open>file_type\<close> is a text column with \<^verbatim>\<open>CHECK (file_type IN ('pdf', 'video'))\<close>.
\<close>

definition upsert_course_setup ::
  "timestamptz \<Rightarrow> uuid option \<Rightarrow> uuid option \<Rightarrow> string option \<Rightarrow> string option \<Rightarrow>
   string option \<Rightarrow> string option \<Rightarrow> bool option \<Rightarrow> database \<Rightarrow> sql_error + database" where
  "upsert_course_setup now id_val teacher_id title description category image_url is_published db =
     seq (not_null ''courses'' ''id'' id_val) (\<lambda>id'.
     seq (not_null ''courses'' ''teacher_id'' teacher_id) (\<lambda>teacher_id'.
     seq (not_null ''courses'' ''title'' title) (\<lambda>title'.
     seq (not_null ''courses'' ''description'' description) (\<lambda>description'.
     seq (not_null ''courses'' ''category'' category) (\<lambda>category'.
     seq (not_null ''courses'' ''is_published'' is_published) (\<lambda>is_published'.
       case db_courses db id' of
         Some row \<Rightarrow>
           Inr (db\<lparr>db_courses := (db_courses db)(id' \<mapsto>
                  row\<lparr>cr_title := title', cr_description := description',
                      cr_category := category', cr_image_url := image_url,
                      cr_is_published := is_published', cr_updated_at := now\<rparr>)\<rparr>)
       | None \<Rightarrow>
           if teacher_id' \<in> db_profiles db then
             Inr (db\<lparr>db_courses := (db_courses db)(id' \<mapsto>
                    \<lparr>cr_teacher_id = teacher_id', cr_title = title',
                     cr_description = description', cr_category = category',
                     cr_image_url = image_url, cr_is_published = is_published',
                     cr_created_at = now, cr_updated_at = now\<rparr>)\<rparr>)
           else Inl (foreign_key_violation ''courses_teacher_id_fkey'')))))))"

definition insert_module ::
  "timestamptz \<Rightarrow> uuid option \<Rightarrow> uuid option \<Rightarrow> string option \<Rightarrow> int option \<Rightarrow>
   database \<Rightarrow> sql_error + database" where
  "insert_module now id_val course_id title order_val db =
     seq (not_null ''modules'' ''id'' id_val) (\<lambda>id'.
     seq (not_null ''modules'' ''course_id'' course_id) (\<lambda>course_id'.
     seq (not_null ''modules'' ''title'' title) (\<lambda>title'.
     seq (not_null ''modules'' ''order'' order_val) (\<lambda>order_val'.
       if db_modules db id' \<noteq> None then Inl (unique_violation ''modules_pkey'')
       else if db_courses db course_id' = None then
         Inl (foreign_key_violation ''modules_course_id_fkey'')
       else
         Inr (db\<lparr>db_modules := (db_modules db)(id' \<mapsto>
                \<lparr>mr_course_id = course_id', mr_title = title', mr_order = order_val',
                 mr_created_at = now\<rparr>)\<rparr>)))))"

definition check_file_type :: "string option \<Rightarrow> sql_error + file_type option" where
  "check_file_type v =
     (case v of
        None \<Rightarrow> Inr None
      | Some s \<Rightarrow> if s = ''pdf'' then Inr (Some Pdf)
                  else if s = ''video'' then Inr (Some Video)
                  else Inl (check_violation ''lessons_file_type_check''))"

definition insert_lesson ::
  "timestamptz \<Rightarrow> uuid option \<Rightarrow> uuid option \<Rightarrow> string option \<Rightarrow> int option \<Rightarrow>
   string option \<Rightarrow> string option \<Rightarrow> string option \<Rightarrow> int option \<Rightarrow>
   database \<Rightarrow> sql_error + database" where
  "insert_lesson now id_val module_id title order_val file_name ftype_text file_url file_size db =
     seq (not_null ''lessons'' ''id'' id_val) (\<lambda>id'.
     seq (not_null ''lessons'' ''module_id'' module_id) (\<lambda>module_id'.
     seq (not_null ''lessons'' ''title'' title) (\<lambda>title'.
     seq (not_null ''lessons'' ''order'' order_val) (\<lambda>order_val'.
     seq (check_file_type ftype_text) (\<lambda>ftype.
       if db_lessons db id' \<noteq> None then Inl (unique_violation ''lessons_pkey'')
       else if db_modules db module_id' = None then
         Inl (foreign_key_violation ''lessons_module_id_fkey'')
       else
         Inr (db\<lparr>db_lessons := (db_lessons db)(id' \<mapsto>
                \<lparr>lr_module_id = module_id', lr_title = title', lr_order = order_val',
                 lr_file_name = file_name, lr_file_type = ftype,
                 lr_file_url = file_url, lr_file_size = file_size,
                 lr_created_at = now\<rparr>)\<rparr>))))))"

definition save_lesson_setup ::
  "timestamptz \<Rightarrow> uuid option \<Rightarrow> lesson_json \<Rightarrow> database \<Rightarrow> sql_error + database" where
  "save_lesson_setup now v_module_id v_lesson db =
     (let v_lesson_id = lj_id v_lesson;
          v_content = lj_content v_lesson
      in seq (cast_integer (lj_order v_lesson)) (\<lambda>order_val.
         seq (cast_bigint (content_field cn_size v_content)) (\<lambda>fsize.
           insert_lesson now v_lesson_id v_module_id (lj_title v_lesson) order_val
             (content_field cn_name v_content) (content_field cn_type v_content)
             (content_field cn_url v_content) fsize db)))"

definition save_module_setup ::
  "timestamptz \<Rightarrow> uuid option \<Rightarrow> module_json \<Rightarrow> database \<Rightarrow> outcome" where
  "save_module_setup now v_course_id v_module db =
     (let v_module_id = mj_id v_module in
      seq (exec (\<lambda>db. seq (cast_integer (mj_order v_module)) (\<lambda>order_val.
                   insert_module now v_module_id v_course_id (mj_title v_module) order_val db))
             db) (\<lambda>db1.
      seq (exec (\<lambda>_. jsonb_array_elements (mj_lessons v_module)) db1) (\<lambda>lessons.
        for_loop (\<lambda>v_lesson. exec (save_lesson_setup now v_module_id v_lesson)) lessons db1)))"

definition save_course_with_children_setup ::
  "timestamptz \<Rightarrow> course_json \<Rightarrow> database \<Rightarrow> outcome" where
  "save_course_with_children_setup now course_data db =
     (let v_course_id = cj_id course_data in
      seq (exec (upsert_course_setup now v_course_id (cj_teacher_id course_data)
                   (cj_title course_data) (cj_description course_data)
                   (cj_category course_data) (cj_image_url course_data)
                   (cj_is_published course_data)) db) (\<lambda>db1.
      seq (exec (\<lambda>db. Inr (delete_modules
                   (\<lambda>_ row. is_true (sql_eq (Some (mr_course_id row)) v_course_id)) db))
             db1) (\<lambda>db2.
      seq (exec (\<lambda>_. jsonb_array_elements (cj_modules course_data)) db2) (\<lambda>modules.
        for_loop (save_module_setup now v_course_id) modules db2))))"

text \<open>The call of this version: the caller's identity is not consulted.\<close>

definition rpc_save_course_with_children_setup ::
  "uuid option \<Rightarrow> timestamptz \<Rightarrow> course_json \<Rightarrow> database \<Rightarrow> sql_error option \<times> database" where
  "rpc_save_course_with_children_setup auth_uid now course_data =
     rpc (save_course_with_children_setup now course_data)"

subsection \<open>Vocabulary for statements about the saved tree\<close>

text \<open>
  These definitions are not part of the program. \<open>modules_of\<close> and \<open>lessons_of\<close>
  are the entries the two loops run over (none when the key is absent);
  \<open>content_written lesson_json row\<close> says that the four file columns of \<open>row\<close> are
  the content of the payload's lesson: \<^verbatim>\<open>NULL\<close> throughout when the content is
  JSON \<^verbatim>\<open>null\<close> or absent, and the values of the content object otherwise.
\<close>

definition modules_of :: "course_json \<Rightarrow> module_json list" where
  "modules_of course_data = (case cj_modules course_data of Value ms \<Rightarrow> ms | _ \<Rightarrow> [])"

definition lessons_of :: "module_json \<Rightarrow> lesson_json list" where
  "lessons_of module_json = (case mj_lessons module_json of Value ls \<Rightarrow> ls | _ \<Rightarrow> [])"

definition content_written :: "lesson_json \<Rightarrow> lessons_row \<Rightarrow> bool" where
  "content_written lesson_json row \<longleftrightarrow>
     (case lj_content lesson_json of
        Value c \<Rightarrow>
          lr_file_name row = cn_name c \<and>
          cast_file_type (cn_type c) = Inr (lr_file_type row) \<and>
          lr_file_url row = cn_url c \<and>
          lr_file_size row = cn_size c
      | _ \<Rightarrow>
          lr_file_name row = None \<and> lr_file_type row = None \<and>
          lr_file_url row = None \<and> lr_file_size row = None)"

definition all_lessons :: "course_json \<Rightarrow> lesson_json list" where
  "all_lessons course_data = concat (map lessons_of (modules_of course_data))"

text \<open>
  A row of the database holds a course, a module or a lesson of the payload when it
  has the payload's id and the columns that the upsert writes have the payload's
  values; for a lesson, when it is also stored under the given module.
\<close>

definition course_stored :: "course_json \<Rightarrow> database \<Rightarrow> bool" where
  "course_stored course_data db \<longleftrightarrow>
     (\<exists>i row. cj_id course_data = Some i \<and> db_courses db i = Some row \<and>
        Some (cr_title row) = cj_title course_data \<and>
        Some (cr_description row) = cj_description course_data \<and>
        Some (cr_category row) = cj_category course_data \<and>
        cr_image_url row = nullif (cj_image_url course_data) ''null'' \<and>
        Some (cr_is_published row) = cj_is_published course_data)"

definition module_stored :: "module_json \<Rightarrow> database \<Rightarrow> bool" where
  "module_stored module_json db \<longleftrightarrow>
     (\<exists>i row. mj_id module_json = Some i \<and> db_modules db i = Some row \<and>
        Some (mr_title row) = mj_title module_json \<and>
        Some (mr_order row) = mj_order module_json)"

definition lesson_stored :: "uuid \<Rightarrow> lesson_json \<Rightarrow> database \<Rightarrow> bool" where
  "lesson_stored module_id lesson_json db \<longleftrightarrow>
     (\<exists>i row. lj_id lesson_json = Some i \<and> db_lessons db i = Some row \<and>
        lr_module_id row = module_id \<and>
        Some (lr_title row) = lj_title lesson_json \<and>
        Some (lr_order row) = lj_order lesson_json \<and>
        content_written lesson_json row)"

section \<open>Course player (src/components/CoursePreview.tsx, component CoursePlayer)\<close>

text \<open>
  The write of \<^verbatim>\<open>handleLessonComplete\<close>:
  \<^verbatim>\<open>supabase.from('progress').upsert({student_id, lesson_id, is_completed, updated_at},
  {onConflict: 'student_id, lesson_id'})\<close>, an \<^verbatim>\<open>INSERT ... ON CONFLICT (student_id,
  lesson_id) DO UPDATE\<close> run as the calling user. The row-level policy on
  \<^verbatim>\<open>progress\<close> admits rows with \<^verbatim>\<open>student_id = auth.uid()\<close> only. A new row takes
  its \<^verbatim>\<open>id\<close> from \<^verbatim>\<open>gen_random_uuid()\<close> (\<open>new_id\<close>) and must refer to a profile and
  to a lesson that exist.
\<close>

definition upsert_progress ::
  "uuid option \<Rightarrow> uuid \<Rightarrow> uuid \<Rightarrow> uuid \<Rightarrow> bool \<Rightarrow> timestamptz \<Rightarrow> database \<Rightarrow>
   sql_error + database" where
  "upsert_progress auth_uid new_id student_id lesson_id is_completed updated_at db =
     (if \<not> is_true (sql_eq (Some student_id) auth_uid) then Inl insufficient_privilege
      else
        case find (\<lambda>row. pr_student_id row = student_id \<and> pr_lesson_id row = lesson_id)
               (db_progress db) of
          Some _ \<Rightarrow>
            Inr (db\<lparr>db_progress :=
                   map (\<lambda>row. if pr_student_id row = student_id \<and> pr_lesson_id row = lesson_id
                               then row\<lparr>pr_is_completed := is_completed,
                                        pr_updated_at := updated_at\<rparr>
                               else row)
                     (db_progress db)\<rparr>)
        | None \<Rightarrow>
            if new_id \<in> pr_id ` set (db_progress db) then Inl (unique_violation ''progress_pkey'')
            else if student_id \<notin> db_profiles db then
              Inl (foreign_key_violation ''progress_student_id_fkey'')
            else if db_lessons db lesson_id = None then
              Inl (foreign_key_violation ''progress_lesson_id_fkey'')
            else
              Inr (db\<lparr>db_progress := db_progress db @
                     [\<lparr>pr_id = new_id, pr_student_id = student_id, pr_lesson_id = lesson_id,
                       pr_is_completed = is_completed, pr_updated_at = updated_at\<rparr>]\<rparr>))"

text \<open>
  The handler with the component state it uses. An error of the write is caught and
  logged to the console. The success toast is the source's message with its accented
  letters left out.
\<close>

record PlayerState =
  ps_completedLessonIds :: "string list"
  ps_toasts :: "toast list"
  ps_console :: "string list"

definition handleLessonComplete ::
  "uuid option \<Rightarrow> uuid \<Rightarrow> timestamptz \<Rightarrow> string \<Rightarrow> string \<Rightarrow>
   PlayerState \<times> database \<Rightarrow> PlayerState \<times> database" where
  "handleLessonComplete auth_uid new_id now studentId lessonId s =
     (case s of (st, db) \<Rightarrow>
        if lessonId \<in> set (ps_completedLessonIds st) then (st, db)
        else
          case upsert_progress auth_uid new_id studentId lessonId True now db of
            Inl e \<Rightarrow> (st\<lparr>ps_console := ps_console st @ [''Error updating progress:'']\<rparr>, db)
          | Inr db' \<Rightarrow>
              (st\<lparr>ps_completedLessonIds := ps_completedLessonIds st @ [lessonId],
                  ps_toasts := ps_toasts st @ [ToastSuccess ''Leccion completada!'']\<rparr>, db'))"

text \<open>The \<^verbatim>\<open>UNIQUE(student_id, lesson_id)\<close> constraint, as a property of the table.\<close>

definition progress_unique :: "database \<Rightarrow> bool" where
  "progress_unique db \<longleftrightarrow>
     distinct (map (\<lambda>row. (pr_student_id row, pr_lesson_id row)) (db_progress db))"

section \<open>Example data\<close>

text \<open>Concrete inputs on which the results below are evaluated.\<close>

definition demo_course :: Course where
  "demo_course =
     \<lparr>c_id = ''c1'', c_title = ''Algebra'', c_description = [], c_category = [],
      c_imageUrl = None,
      c_modules =
        [\<lparr>m_id = ''m1'', m_title = ''Intro'',
          m_lessons =
            [\<lparr>l_id = ''l1'', l_title = ''A'', l_content = None, l_order = 0\<rparr>,
             \<lparr>l_id = ''l2'', l_title = ''B'', l_content = None, l_order = 1\<rparr>,
             \<lparr>l_id = ''l3'', l_title = ''C'', l_content = None, l_order = 2\<rparr>],
          m_order = 0\<rparr>,
         \<lparr>m_id = ''m2'', m_title = ''Groups'',
          m_lessons = [\<lparr>l_id = ''l4'', l_title = ''D'', l_content = None, l_order = 0\<rparr>],
          m_order = 1\<rparr>],
      c_isPublished = True, c_teacher_id = ''t1''\<rparr>"

definition demo_progress :: "Progress list" where
  "demo_progress =
     [\<lparr>pg_id = ''p1'', pg_student_id = ''s1'', pg_lesson_id = ''l1'',
       pg_is_completed = True, pg_updated_at = []\<rparr>,
      \<lparr>pg_id = ''p2'', pg_student_id = ''s1'', pg_lesson_id = ''l3'',
       pg_is_completed = True, pg_updated_at = []\<rparr>,
      \<lparr>pg_id = ''p3'', pg_student_id = ''s1'', pg_lesson_id = ''l2'',
       pg_is_completed = False, pg_updated_at = []\<rparr>]"

definition demo_drag_modules :: DropResult where
  "demo_drag_modules =
     \<lparr>dr_source = \<lparr>dl_droppableId = ''modules-droppable'', dl_index = 0\<rparr>,
      dr_destination = Some \<lparr>dl_droppableId = ''modules-droppable'', dl_index = 1\<rparr>,
      dr_type = ''MODULES''\<rparr>"

definition demo_drag_lessons :: DropResult where
  "demo_drag_lessons =
     \<lparr>dr_source = \<lparr>dl_droppableId = ''m1'', dl_index = 2\<rparr>,
      dr_destination = Some \<lparr>dl_droppableId = ''m1'', dl_index = 0\<rparr>,
      dr_type = ''LESSONS_m1''\<rparr>"

definition demo_module1 :: Module where
  "demo_module1 = hd (c_modules demo_course)"

definition demo_env :: UploadEnv where
  "demo_env = \<lparr>env_uuid = ''u1'', env_ticks = 3, env_upload = Inr ''t1/c1/m1/l1/u1.png'',
                env_publicUrl = (\<lambda>p. ''https://files/'' @ p)\<rparr>"

definition png_file :: File where
  "png_file = \<lparr>f_name = ''photo.png'', f_type = ''image/png'', f_size = 2048\<rparr>"

definition mp4_file :: File where
  "mp4_file = \<lparr>f_name = ''talk.mp4'', f_type = ''video/mp4'', f_size = 4096\<rparr>"

definition demo_editor :: EditorState where
  "demo_editor = \<lparr>es_course = demo_course, es_uploadProgress = Map.empty,
                   es_uploadStatus = Map.empty, es_toasts = [], es_uploads = []\<rparr>"

definition demo_editor_no_teacher :: EditorState where
  "demo_editor_no_teacher = demo_editor\<lparr>es_course := demo_course\<lparr>c_teacher_id := []\<rparr>\<rparr>"

text \<open>
  A database with one course of teacher \<open>t1\<close>: module \<open>m1\<close> holds lesson \<open>l1\<close>
  with a video attached, and student \<open>s1\<close> has completed that lesson.
\<close>

definition demo_db :: database where
  "demo_db =
     \<lparr>db_profiles = {''t1'', ''t2'', ''s1''},
      db_courses = [''c1'' \<mapsto>
        \<lparr>cr_teacher_id = ''t1'', cr_title = ''Algebra'', cr_description = ''Basics'',
         cr_category = ''Maths'', cr_image_url = None, cr_is_published = True,
         cr_created_at = 1, cr_updated_at = 1\<rparr>],
      db_modules = [''m1'' \<mapsto>
        \<lparr>mr_course_id = ''c1'', mr_title = ''Intro'', mr_order = 0, mr_created_at = 1\<rparr>],
      db_lessons = [''l1'' \<mapsto>
        \<lparr>lr_module_id = ''m1'', lr_title = ''Welcome'', lr_order = 0,
         lr_file_name = Some ''talk.mp4'', lr_file_type = Some Video,
         lr_file_url = Some ''https://files/talk.mp4'', lr_file_size = Some 4096,
         lr_created_at = 1\<rparr>],
      db_progress =
        [\<lparr>pr_id = ''p1'', pr_student_id = ''s1'', pr_lesson_id = ''l1'',
          pr_is_completed = True, pr_updated_at = 5\<rparr>]\<rparr>"

text \<open>The same course as teacher \<open>t1\<close> would save it after renaming it.\<close>

definition demo_tree :: course_json where
  "demo_tree =
     \<lparr>cj_id = Some ''c1'', cj_title = Some ''Linear Algebra'', cj_description = Some ''Basics'',
      cj_category = Some ''Maths'', cj_image_url = None, cj_is_published = Some True,
      cj_teacher_id = Some ''t1'',
      cj_modules = Value
        [\<lparr>mj_id = Some ''m1'', mj_title = Some ''Intro'', mj_order = Some 0,
          mj_lessons = Value
            [\<lparr>lj_id = Some ''l1'', lj_title = Some ''Welcome'', lj_order = Some 0,
              lj_content = JsonNull\<rparr>,
             \<lparr>lj_id = Some ''l2'', lj_title = Some ''Slides'', lj_order = Some 1,
              lj_content = Value \<lparr>cn_name = Some ''slides.pdf'', cn_type = Some ''pdf'',
                cn_url = Some ''https://files/slides.pdf'', cn_size = Some 1024\<rparr>\<rparr>]\<rparr>]\<rparr>"

text \<open>
  A payload for the same course in which lesson \<open>l1\<close> is listed under a new module
  \<open>m2\<close>, and module \<open>m1\<close> is gone.
\<close>

definition demo_tree_moved :: course_json where
  "demo_tree_moved =
     demo_tree\<lparr>cj_modules := Value
        [\<lparr>mj_id = Some ''m2'', mj_title = Some ''Start'', mj_order = Some 0,
          mj_lessons = Value
            [\<lparr>lj_id = Some ''l1'', lj_title = Some ''Welcome'', lj_order = Some 0,
              lj_content = JsonNull\<rparr>]\<rparr>]\<rparr>"

text \<open>A payload whose second module has no title: its insert fails.\<close>

definition demo_tree_broken :: course_json where
  "demo_tree_broken =
     demo_tree\<lparr>cj_modules := Value
        [\<lparr>mj_id = Some ''m1'', mj_title = Some ''Intro'', mj_order = Some 0,
          mj_lessons = Value []\<rparr>,
         \<lparr>mj_id = Some ''m3'', mj_title = None, mj_order = Some 1,
          mj_lessons = Value []\<rparr>]\<rparr>"

section \<open>Results: media-kind translation\<close>

text \<open>
  Claim C8. The two translations are inverse to each other on the tokens in use:
  for each enum token \<open>e\<close> among \<open>pdf\<close> and \<open>video\<close>,
  \<open>normalizeFileType (enumToMimeType e)\<close> is \<open>e\<close>; for each MIME token \<open>t\<close> among
  \<open>video/mp4\<close> and \<open>application/pdf\<close>, \<open>normalizeFileType t\<close> is an enum token
  whose image under \<open>enumToMimeType\<close> is \<open>t\<close>.
\<close>

theorem media_kind_roundtrip:
  "(\<forall>e \<in> {''pdf'', ''video''}. normalizeFileType (enumToMimeType e) = Some e) \<and>
   (\<forall>t \<in> {''video/mp4'', ''application/pdf''}.
      map_option enumToMimeType (normalizeFileType t) = Some t)"
  by (simp add: normalizeFileType_def enumToMimeType_def)

theorem media_kind_roundtrip_witness:
  "normalizeFileType (enumToMimeType ''video'') = Some ''video'' \<and>
   map_option enumToMimeType (normalizeFileType ''video/mp4'') = Some ''video/mp4''"
  using media_kind_roundtrip by simp

text \<open>
  The teacher's fetch in src/index.tsx does not use this round trip: it applies
  \<^verbatim>\<open>normalizeFileType\<close> to the stored enum value, which is no MIME type, and falls
  back to \<^verbatim>\<open>'pdf'\<close>. A stored \<open>video\<close> is displayed as a PDF there, while the
  student's fetch in src/unnamed/part\_000 applies \<^verbatim>\<open>enumToMimeType\<close> alone.
\<close>

lemma teacher_fetch_video_becomes_pdf:
  "enumToMimeType (case normalizeFileType ''video'' of None \<Rightarrow> ''pdf'' | Some e \<Rightarrow> e)
     = ''application/pdf''"
  by (simp add: normalizeFileType_def enumToMimeType_def)

section \<open>Results: dashboard progress\<close>

lemma totalLessons_foldl:
  "foldl (\<lambda>acc m. acc + length (m_lessons m)) a ms =
     a + length (concat (map (\<lambda>m. map l_id (m_lessons m)) ms))"
  by (induction ms arbitrary: a) auto

lemma totalLessons_length: "totalLessons course = length (courseLessonIds course)"
  by (simp add: totalLessons_def courseLessonIds_def totalLessons_foldl)

text \<open>
  Claim C10. \<^verbatim>\<open>getCourseProgress\<close> returns 0 for a course without lessons (the
  division is not reached), and a value from 0 to 100 whenever the number of completed
  lessons is at most the number of lessons. The rounding \<open>fl\<close> of the two
  floating-point operations is any monotone function that is exact on 0, 1 and 100.
\<close>

theorem getCourseProgress_bounds:
  assumes fl: "mono fl" "fl 0 = 0" "fl 1 = 1" "fl 100 = 100"
  shows "(totalLessons course = 0 \<longrightarrow> getCourseProgress fl progress course = 0) \<and>
         (completedLessons progress course \<le> totalLessons course \<longrightarrow>
            0 \<le> getCourseProgress fl progress course \<and>
            getCourseProgress fl progress course \<le> 100)"
proof (intro conjI impI)
  show "getCourseProgress fl progress course = 0" if "totalLessons course = 0"
    using that by (simp add: getCourseProgress_def)
next
  assume le: "completedLessons progress course \<le> totalLessons course"
  define c where "c = completedLessons progress course"
  define t where "t = totalLessons course"
  show "0 \<le> getCourseProgress fl progress course"
  proof (cases "t = 0")
    case True
    then show ?thesis by (simp add: getCourseProgress_def t_def)
  next
    case False
    have q0: "0 \<le> real c / real t" by simp
    have "0 \<le> fl (real c / real t)" using monoD[OF fl(1) q0] fl(2) by simp
    then have "0 \<le> fl (real c / real t) * 100" by simp
    then have "0 \<le> fl (fl (real c / real t) * 100)" using monoD[OF fl(1)] fl(2) by metis
    then show ?thesis using False
      by (simp add: getCourseProgress_def t_def c_def Math_round_def)
  qed
  show "getCourseProgress fl progress course \<le> 100"
  proof (cases "t = 0")
    case True
    then show ?thesis by (simp add: getCourseProgress_def t_def)
  next
    case False
    have q1: "real c / real t \<le> 1" using le False by (simp add: c_def t_def)
    have "fl (real c / real t) \<le> 1" using monoD[OF fl(1) q1] fl(3) by simp
    then have "fl (real c / real t) * 100 \<le> 100" by simp
    then have "fl (fl (real c / real t) * 100) \<le> 100" using monoD[OF fl(1)] fl(4) by metis
    then show ?thesis using False
      by (simp add: getCourseProgress_def t_def c_def Math_round_def floor_le_iff)
  qed
qed

lemma demo_course_progress: "getCourseProgress (\<lambda>x. x) demo_progress demo_course = 50"
  by (simp add: getCourseProgress_def totalLessons_def completedLessons_def
      courseLessonIds_def demo_course_def demo_progress_def Math_round_def)

theorem getCourseProgress_bounds_witness:
  "mono (\<lambda>x::real. x) \<and>
   completedLessons demo_progress demo_course \<le> totalLessons demo_course \<and>
   getCourseProgress (\<lambda>x. x) demo_progress demo_course = 50 \<and>
   0 \<le> getCourseProgress (\<lambda>x. x) demo_progress demo_course \<and>
   getCourseProgress (\<lambda>x. x) demo_progress demo_course \<le> 100 \<and>
   totalLessons (demo_course\<lparr>c_modules := []\<rparr>) = 0 \<and>
   getCourseProgress (\<lambda>x. x) demo_progress (demo_course\<lparr>c_modules := []\<rparr>) = 0"
proof -
  have m: "mono (\<lambda>x::real. x)" by (simp add: mono_def)
  have le: "completedLessons demo_progress demo_course \<le> totalLessons demo_course"
    by (simp add: totalLessons_def completedLessons_def courseLessonIds_def
        demo_course_def demo_progress_def)
  have z: "totalLessons (demo_course\<lparr>c_modules := []\<rparr>) = 0"
    by (simp add: totalLessons_def)
  from getCourseProgress_bounds[OF m, where progress = demo_progress and course = demo_course]
    getCourseProgress_bounds[OF m, where progress = demo_progress
      and course = "demo_course\<lparr>c_modules := []\<rparr>"]
    le z demo_course_progress m
  show ?thesis by simp
qed

section \<open>Results: course editor\<close>

lemma string_split_none: "sep \<notin> set s \<Longrightarrow> string_split sep s = [s]"
  by (induction s) auto

lemma string_split_lessons:
  "CHR ''_'' \<notin> set mid \<Longrightarrow> js_index (string_split (CHR ''_'') (''LESSONS_'' @ mid)) 1 = Some mid"
  by (simp add: string_split_none)

lemma insert_at:
  assumes "j \<le> length r"
  shows "(take j r @ x # drop j r) ! j = x"
    and "take j (take j r @ x # drop j r) @ drop (Suc j) (take j r @ x # drop j r) = r"
    and "length (take j r @ x # drop j r) = Suc (length r)"
proof -
  have lt: "length (take j r) = j" using assms by simp
  show "(take j r @ x # drop j r) ! j = x"
    using nth_append_length[of "take j r" x "drop j r"] lt by simp
  show "take j (take j r @ x # drop j r) @ drop (Suc j) (take j r @ x # drop j r) = r"
    using lt by simp
  show "length (take j r @ x # drop j r) = Suc (length r)"
    using assms by simp
qed

lemma move_item_in_range:
  assumes "i < length xs" "j < length xs"
  shows "\<exists>ys. move_item (int i) (int j) xs = Some ys \<and> is_move i j xs ys"
proof -
  define r where "r = take i xs @ drop (Suc i) xs"
  have len: "Suc (length r) = length xs" using assms by (simp add: r_def)
  have jl: "j \<le> length r" using assms len by simp
  have dr: "drop i xs = xs ! i # drop (Suc i) xs"
    using assms by (simp add: Cons_nth_drop_Suc)
  have d: "splice_delete (int i) 1 xs = ([xs ! i], r)"
    using assms by (simp add: splice_delete_def splice_start_def Let_def min_def dr r_def)
  have m: "move_item (int i) (int j) xs = Some (take j r @ xs ! i # drop j r)"
    using jl unfolding move_item_def d
    by (simp add: splice_insert_def splice_start_def Let_def min_def)
  have "is_move i j xs (take j r @ xs ! i # drop j r)"
    unfolding is_move_def r_def[symmetric] using insert_at[OF jl, of "xs ! i"] len
    by simp
  with m show ?thesis by blast
qed


lemma is_move_map:
  assumes "is_move i j old new" "i < length old" "j < length old"
  shows "is_move i j (map f old) (map f new)"
proof -
  from assms have l: "length new = length old" and n: "new ! j = old ! i"
    and t: "take j new @ drop (Suc j) new = take i old @ drop (Suc i) old"
    by (simp_all add: is_move_def)
  have "take j (map f new) @ drop (Suc j) (map f new) = map f (take j new @ drop (Suc j) new)"
    by (simp add: take_map drop_map)
  also have "\<dots> = take i (map f old) @ drop (Suc i) (map f old)"
    unfolding t by (simp add: take_map drop_map)
  finally show ?thesis using l n assms(2,3) by (simp add: is_move_def)
qed

lemma reindex_modules_order: "dense_module_order (reindex_modules items)"
  unfolding dense_module_order_def reindex_modules_def
  by (rule nth_equalityI) (simp_all add: nth_enumerate_eq)

lemma reindex_modules_strip:
  "map (m_order_update (\<lambda>_. 0)) (reindex_modules items) = map (m_order_update (\<lambda>_. 0)) items"
  unfolding reindex_modules_def
  by (rule nth_equalityI) (simp_all add: nth_enumerate_eq)

lemma reindex_lessons_order: "dense_lesson_order (reindex_lessons items)"
  unfolding dense_lesson_order_def reindex_lessons_def
  by (rule nth_equalityI) (simp_all add: nth_enumerate_eq)

lemma reindex_lessons_strip:
  "map (l_order_update (\<lambda>_. 0)) (reindex_lessons items) = map (l_order_update (\<lambda>_. 0)) items"
  unfolding reindex_lessons_def
  by (rule nth_equalityI) (simp_all add: nth_enumerate_eq)

lemma find_distinct_key:
  "distinct (map f xs) \<Longrightarrow> x \<in> set xs \<Longrightarrow> find (\<lambda>m. f m = f x) xs = Some x"
  by (induction xs) (auto simp: image_iff)

lemma map_if_distinct_key:
  assumes "distinct (map f xs)" "x \<in> set xs"
  shows "map (\<lambda>m. if f m = f x then g m else m) xs = map (\<lambda>m. if m = x then g m else m) xs"
proof (rule map_cong[OF refl])
  fix m assume "m \<in> set xs"
  with assms have "f m = f x \<longleftrightarrow> m = x"
    by (meson distinct_map inj_on_eq_iff)
  then show "(if f m = f x then g m else m) = (if m = x then g m else m)" by simp
qed

text \<open>
  Claim C6. For a drag result with a destination and indices inside the affected
  list: when a module is dragged, the new modules list is the old one with the
  dragged module moved from the source index to the destination index, every module
  carries its position as \<^verbatim>\<open>order\<close>, and nothing else in the course changes (each
  module keeps its lessons). When a lesson of a module is dragged, the same holds for
  the lessons of that module, and every other module, and every other field of that
  module, is unchanged. The modules of the course have distinct ids without an
  underscore (they are UUIDs), and the lesson drag's type names a module of the course.
\<close>

theorem onDragEnd_reorders:
  assumes dest: "dr_destination result = Some destination"
    and src: "dl_index (dr_source result) = int i"
    and dst: "dl_index destination = int j"
  shows "(dr_type result = ''MODULES'' \<and> i < length (c_modules course) \<and>
          j < length (c_modules course) \<longrightarrow>
            (\<exists>course'. onDragEnd result course = Some course' \<and>
               dense_module_order (c_modules course') \<and>
               is_move i j (map (m_order_update (\<lambda>_. 0)) (c_modules course))
                           (map (m_order_update (\<lambda>_. 0)) (c_modules course')) \<and>
               course'\<lparr>c_modules := c_modules course\<rparr> = course)) \<and>
         (modul \<in> set (c_modules course) \<and> distinct (map m_id (c_modules course)) \<and>
          CHR ''_'' \<notin> set (m_id modul) \<and> dr_type result = ''LESSONS_'' @ m_id modul \<and>
          i < length (m_lessons modul) \<and> j < length (m_lessons modul) \<longrightarrow>
            (\<exists>course' lessons'. onDragEnd result course = Some course' \<and>
               c_modules course' =
                 map (\<lambda>m. if m = modul then m\<lparr>m_lessons := lessons'\<rparr> else m) (c_modules course) \<and>
               course'\<lparr>c_modules := c_modules course\<rparr> = course \<and>
               dense_lesson_order lessons' \<and>
               is_move i j (map (l_order_update (\<lambda>_. 0)) (m_lessons modul))
                           (map (l_order_update (\<lambda>_. 0)) lessons')))"
proof (intro conjI impI)
  assume a: "dr_type result = ''MODULES'' \<and> i < length (c_modules course) \<and>
          j < length (c_modules course)"
  then obtain ys where ys: "move_item (int i) (int j) (c_modules course) = Some ys"
    and mv: "is_move i j (c_modules course) ys"
    using move_item_in_range by blast
  have r: "onDragEnd result course = Some (course\<lparr>c_modules := reindex_modules ys\<rparr>)"
    using a dest src dst ys by (simp add: onDragEnd_def)
  have "is_move i j (map (m_order_update (\<lambda>_. 0)) (c_modules course))
          (map (m_order_update (\<lambda>_. 0)) (reindex_modules ys))"
    unfolding reindex_modules_strip using is_move_map[OF mv] a by simp
  then show "\<exists>course'. onDragEnd result course = Some course' \<and>
               dense_module_order (c_modules course') \<and>
               is_move i j (map (m_order_update (\<lambda>_. 0)) (c_modules course))
                           (map (m_order_update (\<lambda>_. 0)) (c_modules course')) \<and>
               course'\<lparr>c_modules := c_modules course\<rparr> = course"
    using r reindex_modules_order by simp
next
  assume a: "modul \<in> set (c_modules course) \<and> distinct (map m_id (c_modules course)) \<and>
          CHR ''_'' \<notin> set (m_id modul) \<and> dr_type result = ''LESSONS_'' @ m_id modul \<and>
          i < length (m_lessons modul) \<and> j < length (m_lessons modul)"
  then obtain ys where ys: "move_item (int i) (int j) (m_lessons modul) = Some ys"
    and mv: "is_move i j (m_lessons modul) ys"
    using move_item_in_range by blast
  have ty: "dr_type result \<noteq> ''MODULES''" "prefix ''LESSONS_'' (dr_type result)"
    using a by simp_all
  have ix: "js_index (string_split (CHR ''_'') (dr_type result)) 1 = Some (m_id modul)"
    using a string_split_lessons by simp
  have fd: "find (\<lambda>m. m_id m = m_id modul) (c_modules course) = Some modul"
    using a find_distinct_key by fastforce
  have r: "onDragEnd result course = Some (course\<lparr>c_modules :=
             map (\<lambda>m. if m = modul then m\<lparr>m_lessons := reindex_lessons ys\<rparr> else m)
               (c_modules course)\<rparr>)"
    using dest src dst ys ty ix fd a
    by (simp add: onDragEnd_def map_if_distinct_key[of m_id])
  have "is_move i j (map (l_order_update (\<lambda>_. 0)) (m_lessons modul))
          (map (l_order_update (\<lambda>_. 0)) (reindex_lessons ys))"
    unfolding reindex_lessons_strip using is_move_map[OF mv] a by simp
  then show "\<exists>course' lessons'. onDragEnd result course = Some course' \<and>
               c_modules course' =
                 map (\<lambda>m. if m = modul then m\<lparr>m_lessons := lessons'\<rparr> else m) (c_modules course) \<and>
               course'\<lparr>c_modules := c_modules course\<rparr> = course \<and>
               dense_lesson_order lessons' \<and>
               is_move i j (map (l_order_update (\<lambda>_. 0)) (m_lessons modul))
                           (map (l_order_update (\<lambda>_. 0)) lessons')"
    using r reindex_lessons_order by auto
qed

lemma demo_drag_modules_result:
  "map (\<lambda>m. (m_id m, m_order m)) (c_modules (the (onDragEnd demo_drag_modules demo_course)))
     = [(''m2'', 0), (''m1'', 1)]"
  by (simp add: onDragEnd_def demo_drag_modules_def demo_course_def move_item_def
      splice_delete_def splice_insert_def splice_start_def reindex_modules_def enumerate_eq_zip)

lemma demo_drag_lessons_result:
  "map (\<lambda>m. (m_id m, map (\<lambda>l. (l_id l, l_order l)) (m_lessons m)))
       (c_modules (the (onDragEnd demo_drag_lessons demo_course)))
     = [(''m1'', [(''l3'', 0), (''l1'', 1), (''l2'', 2)]), (''m2'', [(''l4'', 0)])]"
  by (simp add: onDragEnd_def demo_drag_lessons_def demo_course_def move_item_def
      splice_delete_def splice_insert_def splice_start_def reindex_lessons_def enumerate_eq_zip
      upt_rec[of 0] upt_rec[of 1] upt_rec[of 2])

theorem onDragEnd_reorders_witness:
  "(\<exists>course'. onDragEnd demo_drag_modules demo_course = Some course' \<and>
      dense_module_order (c_modules course') \<and>
      map (\<lambda>m. (m_id m, m_order m)) (c_modules course') = [(''m2'', 0), (''m1'', 1)]) \<and>
   demo_module1 \<in> set (c_modules demo_course) \<and>
   distinct (map m_id (c_modules demo_course)) \<and>
   (\<exists>course' lessons'. onDragEnd demo_drag_lessons demo_course = Some course' \<and>
      c_modules course' =
        map (\<lambda>m. if m = demo_module1 then m\<lparr>m_lessons := lessons'\<rparr> else m)
          (c_modules demo_course) \<and>
      dense_lesson_order lessons' \<and>
      map (\<lambda>m. (m_id m, map (\<lambda>l. (l_id l, l_order l)) (m_lessons m))) (c_modules course')
        = [(''m1'', [(''l3'', 0), (''l1'', 1), (''l2'', 2)]), (''m2'', [(''l4'', 0)])])"
proof -
  have m: "demo_module1 \<in> set (c_modules demo_course)"
    and d: "distinct (map m_id (c_modules demo_course))"
    and u: "CHR ''_'' \<notin> set (m_id demo_module1)"
    and t: "dr_type demo_drag_lessons = ''LESSONS_'' @ m_id demo_module1"
    and l: "2 < length (m_lessons demo_module1)" "0 < length (m_lessons demo_module1)"
    by (simp_all add: demo_module1_def demo_course_def demo_drag_lessons_def)
  have md: "dr_destination demo_drag_modules =
              Some \<lparr>dl_droppableId = ''modules-droppable'', dl_index = 1\<rparr>"
    and ms: "dl_index (dr_source demo_drag_modules) = int 0"
    and mt: "dr_type demo_drag_modules = ''MODULES''"
    and ml: "0 < length (c_modules demo_course)" "1 < length (c_modules demo_course)"
    by (simp_all add: demo_drag_modules_def demo_course_def)
  have mj: "dl_index \<lparr>dl_droppableId = ''modules-droppable'', dl_index = 1\<rparr> = int 1"
    by simp
  have ld: "dr_destination demo_drag_lessons = Some \<lparr>dl_droppableId = ''m1'', dl_index = 0\<rparr>"
    and ls: "dl_index (dr_source demo_drag_lessons) = int 2"
    by (simp_all add: demo_drag_lessons_def)
  have lj: "dl_index \<lparr>dl_droppableId = ''m1'', dl_index = 0\<rparr> = int 0"
    by simp
  from onDragEnd_reorders[OF md ms mj, where course = demo_course and modul = demo_module1]
    mt ml
  obtain c1 where c1: "onDragEnd demo_drag_modules demo_course = Some c1"
    and o1: "dense_module_order (c_modules c1)"
    by blast
  from onDragEnd_reorders[OF ld ls lj, where course = demo_course and modul = demo_module1]
    m d u t l
  obtain c2 lessons' where c2: "onDragEnd demo_drag_lessons demo_course = Some c2"
    and k2: "c_modules c2 =
        map (\<lambda>m. if m = demo_module1 then m\<lparr>m_lessons := lessons'\<rparr> else m)
          (c_modules demo_course)"
    and o2: "dense_lesson_order lessons'"
    by blast
  have v1: "map (\<lambda>m. (m_id m, m_order m)) (c_modules c1) = [(''m2'', 0), (''m1'', 1)]"
    using demo_drag_modules_result c1 by simp
  have v2: "map (\<lambda>m. (m_id m, map (\<lambda>l. (l_id l, l_order l)) (m_lessons m))) (c_modules c2)
        = [(''m1'', [(''l3'', 0), (''l1'', 1), (''l2'', 2)]), (''m2'', [(''l4'', 0)])]"
    using demo_drag_lessons_result c2 by simp
  have A: "\<exists>course'. onDragEnd demo_drag_modules demo_course = Some course' \<and>
      dense_module_order (c_modules course') \<and>
      map (\<lambda>m. (m_id m, m_order m)) (c_modules course') = [(''m2'', 0), (''m1'', 1)]"
    using c1 o1 v1 by (intro exI[of _ c1] conjI)
  have B: "\<exists>course' lessons'. onDragEnd demo_drag_lessons demo_course = Some course' \<and>
      c_modules course' =
        map (\<lambda>m. if m = demo_module1 then m\<lparr>m_lessons := lessons'\<rparr> else m)
          (c_modules demo_course) \<and>
      dense_lesson_order lessons' \<and>
      map (\<lambda>m. (m_id m, map (\<lambda>l. (l_id l, l_order l)) (m_lessons m))) (c_modules course')
        = [(''m1'', [(''l3'', 0), (''l1'', 1), (''l2'', 2)]), (''m2'', [(''l4'', 0)])]"
    using c2 k2 o2 v2 by (intro exI[of _ c2] exI[of _ lessons'] conjI)
  from A m d B show ?thesis by (intro conjI)
qed

text \<open>
  Claim C7, as amended. For a selected file whose MIME type is neither \<open>video/mp4\<close>
  nor \<open>application/pdf\<close>, \<open>handleFileChange\<close> makes no storage upload call and leaves
  the course, the upload progress and the upload status as they were; when the course
  has a teacher id it reports the error toast. For a course without a teacher id the
  first guard returns before the type is looked at, and nothing is reported.
\<close>

theorem handleFileChange_rejects_unsupported:
  assumes "f_type file \<noteq> ''video/mp4''" and "f_type file \<noteq> ''application/pdf''"
  shows "es_uploads (handleFileChange env (Some (file # rest)) moduleId lessonId st)
           = es_uploads st \<and>
         es_course (handleFileChange env (Some (file # rest)) moduleId lessonId st)
           = es_course st \<and>
         es_uploadProgress (handleFileChange env (Some (file # rest)) moduleId lessonId st)
           = es_uploadProgress st \<and>
         es_uploadStatus (handleFileChange env (Some (file # rest)) moduleId lessonId st)
           = es_uploadStatus st \<and>
         (c_teacher_id (es_course st) \<noteq> [] \<longrightarrow>
            es_toasts (handleFileChange env (Some (file # rest)) moduleId lessonId st)
              = es_toasts st @
                [ToastError ''Tipo de archivo no soportado. Sube un video MP4 o un PDF.''])"
  using assms by (simp add: handleFileChange_def)

theorem handleFileChange_rejects_unsupported_witness:
  "f_type png_file \<noteq> ''video/mp4'' \<and> f_type png_file \<noteq> ''application/pdf'' \<and>
   c_teacher_id (es_course demo_editor) \<noteq> [] \<and>
   es_uploads (handleFileChange demo_env (Some [png_file]) ''m1'' ''l1'' demo_editor) = [] \<and>
   es_course (handleFileChange demo_env (Some [png_file]) ''m1'' ''l1'' demo_editor)
     = demo_course \<and>
   es_toasts (handleFileChange demo_env (Some [png_file]) ''m1'' ''l1'' demo_editor)
     = [ToastError ''Tipo de archivo no soportado. Sube un video MP4 o un PDF.'']"
proof -
  have t: "f_type png_file \<noteq> ''video/mp4''" "f_type png_file \<noteq> ''application/pdf''"
    by (simp_all add: png_file_def)
  have c: "c_teacher_id (es_course demo_editor) \<noteq> []"
    by (simp add: demo_editor_def demo_course_def)
  from handleFileChange_rejects_unsupported[OF t, of demo_env "[]" "''m1''" "''l1''" demo_editor]
    t c
  show ?thesis by (simp add: demo_editor_def)
qed

text \<open>
  The claim as first stated asks for the error report in every case. On a course
  whose \<^verbatim>\<open>teacher_id\<close> is empty an unsupported file is dropped silently.
\<close>

theorem handleFileChange_silent_without_teacher:
  "f_type png_file \<noteq> ''video/mp4'' \<and> f_type png_file \<noteq> ''application/pdf'' \<and>
   es_toasts (handleFileChange demo_env (Some [png_file]) ''m1'' ''l1'' demo_editor_no_teacher)
     = []"
  by (simp add: handleFileChange_def demo_editor_no_teacher_def demo_editor_def png_file_def)

text \<open>A supported file does reach the storage upload, with the path built from the ids.\<close>

lemma handleFileChange_uploads_supported:
  "map su_path (es_uploads (handleFileChange demo_env (Some [mp4_file]) ''m1'' ''l1'' demo_editor))
     = [''t1/c1/m1/l1/u1.mp4'']"
  by (simp add: handleFileChange_def demo_editor_def demo_env_def mp4_file_def demo_course_def
      Let_def)

section \<open>Results: database\<close>

lemma seq_Inr_iff: "seq m f = Inr y \<longleftrightarrow> (\<exists>x. m = Inr x \<and> f x = Inr y)"
  by (cases m) (simp_all add: seq_def)

lemma exec_Inr_iff: "exec stmt db = Inr x \<longleftrightarrow> stmt db = Inr x"
  by (simp add: exec_def split: sum.splits)

lemma not_null_Inr_iff: "not_null t c v = Inr x \<longleftrightarrow> v = Some x"
  by (simp add: not_null_def split: option.splits)

lemma cast_integer_Inr: "cast_integer v = Inr y \<Longrightarrow> y = v"
  by (auto simp: cast_integer_def split: option.splits if_splits)

lemma cast_bigint_Inr: "cast_bigint v = Inr y \<Longrightarrow> y = v"
  by (auto simp: cast_bigint_def split: option.splits if_splits)

lemma jsonb_array_elements_modules:
  "jsonb_array_elements (cj_modules T) = Inr ms \<Longrightarrow> ms = modules_of T"
  by (auto simp: jsonb_array_elements_def modules_of_def split: jsonb.splits)

lemma jsonb_array_elements_lessons:
  "jsonb_array_elements (mj_lessons mj) = Inr ls \<Longrightarrow> ls = lessons_of mj"
  by (auto simp: jsonb_array_elements_def lessons_of_def split: jsonb.splits)

lemma rpc_None_iff: "rpc body db = (None, db') \<longleftrightarrow> body db = Inr db'"
  by (auto simp: rpc_def split: sum.splits prod.splits)

lemma for_loop_invariant:
  assumes "for_loop body xs db = Inr db'"
    and "\<And>x d d'. x \<in> set xs \<Longrightarrow> body x d = Inr d' \<Longrightarrow> G d \<or> est x \<Longrightarrow> G d'"
    and "G db \<or> (\<exists>x\<in>set xs. est x)"
  shows "G db'"
  using assms
proof (induction xs arbitrary: db)
  case Nil
  then show ?case by simp
next
  case (Cons x xs)
  from Cons.prems(1) obtain d where d: "body x db = Inr d" and r: "for_loop body xs d = Inr db'"
    by (auto simp: seq_Inr_iff)
  have "G d \<or> (\<exists>x\<in>set xs. est x)"
  proof (cases "G db \<or> est x")
    case True
    then have "G d" using Cons.prems(2)[OF _ d] by simp
    then show ?thesis ..
  next
    case False
    then show ?thesis using Cons.prems(3) by auto
  qed
  then show ?case using Cons.IH[OF r] Cons.prems(2) by auto
qed

lemma for_loop_preserves:
  assumes "for_loop body xs db = Inr db'"
    and "\<And>x d d'. x \<in> set xs \<Longrightarrow> body x d = Inr d' \<Longrightarrow> G d \<Longrightarrow> G d'"
    and "G db"
  shows "G db'"
  using for_loop_invariant[OF assms(1), of G "\<lambda>_. False"] assms(2,3) by blast

subsection \<open>What a statement changes\<close>

lemma upsert_lesson_Inr:
  assumes "upsert_lesson now i m t ord fn ft fu fs db = Inr db'"
  shows "\<exists>i' m' row. i = Some i' \<and> m = Some m' \<and>
    db' = db\<lparr>db_lessons := (db_lessons db)(i' \<mapsto> row)\<rparr> \<and>
    lr_file_name row = fn \<and> lr_file_type row = ft \<and> lr_file_url row = fu \<and>
    lr_file_size row = fs \<and> Some (lr_title row) = t \<and> Some (lr_order row) = ord \<and>
    lr_module_id row = (case db_lessons db i' of Some old \<Rightarrow> lr_module_id old | None \<Rightarrow> m') \<and>
    lr_created_at row = (case db_lessons db i' of Some old \<Rightarrow> lr_created_at old | None \<Rightarrow> now)"
proof -
  from assms obtain i' m' t' ord' where v: "i = Some i'" "m = Some m'" "t = Some t'" "ord = Some ord'"
    and r: "(case db_lessons db i' of
         Some row \<Rightarrow>
           Inr (db\<lparr>db_lessons := (db_lessons db)(i' \<mapsto>
                  row\<lparr>lr_title := t', lr_order := ord', lr_file_name := fn,
                      lr_file_type := ft, lr_file_url := fu,
                      lr_file_size := fs\<rparr>)\<rparr>)
       | None \<Rightarrow>
           if db_modules db m' \<noteq> None then
             Inr (db\<lparr>db_lessons := (db_lessons db)(i' \<mapsto>
                    \<lparr>lr_module_id = m', lr_title = t', lr_order = ord',
                     lr_file_name = fn, lr_file_type = ft,
                     lr_file_url = fu, lr_file_size = fs,
                     lr_created_at = now\<rparr>)\<rparr>)
           else Inl (foreign_key_violation ''lessons_module_id_fkey'')) = Inr db'"
    unfolding upsert_lesson_def by (auto simp: seq_Inr_iff not_null_Inr_iff)
  show ?thesis
  proof (cases "db_lessons db i'")
    case None
    with r have "db' = db\<lparr>db_lessons := (db_lessons db)(i' \<mapsto>
                    \<lparr>lr_module_id = m', lr_title = t', lr_order = ord',
                     lr_file_name = fn, lr_file_type = ft,
                     lr_file_url = fu, lr_file_size = fs,
                     lr_created_at = now\<rparr>)\<rparr>"
      by (simp split: if_splits)
    then show ?thesis using v None
      by (intro exI[of _ i'] exI[of _ m']
          exI[of _ "\<lparr>lr_module_id = m', lr_title = t', lr_order = ord',
                     lr_file_name = fn, lr_file_type = ft,
                     lr_file_url = fu, lr_file_size = fs,
                     lr_created_at = now\<rparr>"]) simp
  next
    case (Some old)
    with r have "db' = db\<lparr>db_lessons := (db_lessons db)(i' \<mapsto>
                  old\<lparr>lr_title := t', lr_order := ord', lr_file_name := fn,
                      lr_file_type := ft, lr_file_url := fu,
                      lr_file_size := fs\<rparr>)\<rparr>"
      by simp
    then show ?thesis using v Some
      by (intro exI[of _ i'] exI[of _ m']
          exI[of _ "old\<lparr>lr_title := t', lr_order := ord', lr_file_name := fn,
                      lr_file_type := ft, lr_file_url := fu,
                      lr_file_size := fs\<rparr>"]) simp
  qed
qed

lemma save_lesson_Inr:
  assumes "save_lesson now mv lj db = Inr db'"
  shows "\<exists>i' m' row. lj_id lj = Some i' \<and> mv = Some m' \<and>
    db' = db\<lparr>db_lessons := (db_lessons db)(i' \<mapsto> row)\<rparr> \<and>
    content_written lj row \<and> Some (lr_title row) = lj_title lj \<and>
    Some (lr_order row) = lj_order lj \<and>
    lr_module_id row = (case db_lessons db i' of Some old \<Rightarrow> lr_module_id old | None \<Rightarrow> m') \<and>
    lr_created_at row = (case db_lessons db i' of Some old \<Rightarrow> lr_created_at old | None \<Rightarrow> now)"
proof (cases "\<exists>c. lj_content lj = Value c")
  case False
  then have n: "\<not> is_true (sql_and (jsonb_is_not_null (lj_content lj)) (jsonb_ne_null (lj_content lj)))"
    by (cases "lj_content lj")
      (simp_all add: jsonb_is_not_null_def jsonb_ne_null_def sql_and_def is_true_def)
  with assms have "upsert_lesson now (lj_id lj) mv (lj_title lj) (lj_order lj)
      None None None None db = Inr db'"
    by (auto simp: save_lesson_def seq_Inr_iff dest: cast_integer_Inr)
  from upsert_lesson_Inr[OF this] False show ?thesis
    by (cases "lj_content lj") (simp_all add: content_written_def)
next
  case True
  then obtain c where c: "lj_content lj = Value c" ..
  then have n: "is_true (sql_and (jsonb_is_not_null (lj_content lj)) (jsonb_ne_null (lj_content lj)))"
    by (simp add: jsonb_is_not_null_def jsonb_ne_null_def sql_and_def is_true_def)
  with assms c obtain ft where
    ft: "cast_file_type (cn_type c) = Inr ft"
    and u: "upsert_lesson now (lj_id lj) mv (lj_title lj) (lj_order lj) (cn_name c) ft (cn_url c)
        (cn_size c) db = Inr db'"
    by (auto simp: save_lesson_def seq_Inr_iff content_field_def
        dest!: cast_integer_Inr cast_bigint_Inr)
  from upsert_lesson_Inr[OF u] c ft show ?thesis
    by (auto simp: content_written_def)
qed

lemma upsert_module_Inr:
  assumes "upsert_module now i c t ord db = Inr db'"
  shows "\<exists>i' c' row. i = Some i' \<and> c = Some c' \<and>
    db' = db\<lparr>db_modules := (db_modules db)(i' \<mapsto> row)\<rparr> \<and>
    Some (mr_title row) = t \<and> Some (mr_order row) = ord \<and>
    mr_course_id row = (case db_modules db i' of Some old \<Rightarrow> mr_course_id old | None \<Rightarrow> c') \<and>
    mr_created_at row = (case db_modules db i' of Some old \<Rightarrow> mr_created_at old | None \<Rightarrow> now)"
proof -
  from assms obtain i' c' t' ord' where v: "i = Some i'" "c = Some c'" "t = Some t'" "ord = Some ord'"
    and r: "(case db_modules db i' of
         Some row \<Rightarrow>
           Inr (db\<lparr>db_modules := (db_modules db)(i' \<mapsto>
                  row\<lparr>mr_title := t', mr_order := ord'\<rparr>)\<rparr>)
       | None \<Rightarrow>
           if db_courses db c' \<noteq> None then
             Inr (db\<lparr>db_modules := (db_modules db)(i' \<mapsto>
                    \<lparr>mr_course_id = c', mr_title = t', mr_order = ord',
                     mr_created_at = now\<rparr>)\<rparr>)
           else Inl (foreign_key_violation ''modules_course_id_fkey'')) = Inr db'"
    unfolding upsert_module_def by (auto simp: seq_Inr_iff not_null_Inr_iff)
  show ?thesis
  proof (cases "db_modules db i'")
    case None
    with r have "db' = db\<lparr>db_modules := (db_modules db)(i' \<mapsto>
                    \<lparr>mr_course_id = c', mr_title = t', mr_order = ord',
                     mr_created_at = now\<rparr>)\<rparr>"
      by (simp split: if_splits)
    then show ?thesis using v None
      by (intro exI[of _ i'] exI[of _ c']
          exI[of _ "\<lparr>mr_course_id = c', mr_title = t', mr_order = ord',
                     mr_created_at = now\<rparr>"]) simp
  next
    case (Some old)
    with r have "db' = db\<lparr>db_modules := (db_modules db)(i' \<mapsto>
                  old\<lparr>mr_title := t', mr_order := ord'\<rparr>)\<rparr>"
      by simp
    then show ?thesis using v Some
      by (intro exI[of _ i'] exI[of _ c']
          exI[of _ "old\<lparr>mr_title := t', mr_order := ord'\<rparr>"]) simp
  qed
qed

lemma save_module_row_Inr:
  assumes "save_module_row now cv mj db = Inr db'"
  shows "\<exists>i' c' row. mj_id mj = Some i' \<and> cv = Some c' \<and>
    db' = db\<lparr>db_modules := (db_modules db)(i' \<mapsto> row)\<rparr> \<and>
    Some (mr_title row) = mj_title mj \<and> Some (mr_order row) = mj_order mj \<and>
    mr_course_id row = (case db_modules db i' of Some old \<Rightarrow> mr_course_id old | None \<Rightarrow> c') \<and>
    mr_created_at row = (case db_modules db i' of Some old \<Rightarrow> mr_created_at old | None \<Rightarrow> now)"
proof -
  from assms have "upsert_module now (mj_id mj) cv (mj_title mj) (mj_order mj) db = Inr db'"
    by (auto simp: save_module_row_def seq_Inr_iff dest: cast_integer_Inr)
  from upsert_module_Inr[OF this] show ?thesis .
qed

lemma upsert_course_Inr:
  assumes "upsert_course now i t d c img p tid db = Inr db'"
  shows "\<exists>i' row. i = Some i' \<and>
    db' = db\<lparr>db_courses := (db_courses db)(i' \<mapsto> row)\<rparr> \<and>
    Some (cr_title row) = t \<and> Some (cr_description row) = d \<and> Some (cr_category row) = c \<and>
    cr_image_url row = img \<and> Some (cr_is_published row) = p \<and>
    (case db_courses db i' of
       Some old \<Rightarrow> cr_teacher_id row = cr_teacher_id old \<and> cr_created_at row = cr_created_at old \<and>
                   cr_updated_at row = cr_updated_at old
     | None \<Rightarrow> Some (cr_teacher_id row) = tid \<and> cr_created_at row = now \<and>
               cr_updated_at row = now \<and> cr_teacher_id row \<in> db_profiles db)"
proof -
  from assms obtain i' tid' t' d' c' p' where v: "i = Some i'" "tid = Some tid'" "t = Some t'"
    "d = Some d'" "c = Some c'" "p = Some p'"
    and r: "(case db_courses db i' of
         Some row \<Rightarrow>
           Inr (db\<lparr>db_courses := (db_courses db)(i' \<mapsto>
                  row\<lparr>cr_title := t', cr_description := d',
                      cr_category := c', cr_image_url := img,
                      cr_is_published := p'\<rparr>)\<rparr>)
       | None \<Rightarrow>
           if tid' \<in> db_profiles db then
             Inr (db\<lparr>db_courses := (db_courses db)(i' \<mapsto>
                    \<lparr>cr_teacher_id = tid', cr_title = t',
                     cr_description = d', cr_category = c',
                     cr_image_url = img, cr_is_published = p',
                     cr_created_at = now, cr_updated_at = now\<rparr>)\<rparr>)
           else Inl (foreign_key_violation ''courses_teacher_id_fkey'')) = Inr db'"
    unfolding upsert_course_def by (auto simp: seq_Inr_iff not_null_Inr_iff)
  show ?thesis
  proof (cases "db_courses db i'")
    case None
    with r have "db' = db\<lparr>db_courses := (db_courses db)(i' \<mapsto>
                    \<lparr>cr_teacher_id = tid', cr_title = t',
                     cr_description = d', cr_category = c',
                     cr_image_url = img, cr_is_published = p',
                     cr_created_at = now, cr_updated_at = now\<rparr>)\<rparr>"
      and "tid' \<in> db_profiles db"
      by (simp_all split: if_splits)
    then show ?thesis using v None
      by (intro exI[of _ i']
          exI[of _ "\<lparr>cr_teacher_id = tid', cr_title = t',
                     cr_description = d', cr_category = c',
                     cr_image_url = img, cr_is_published = p',
                     cr_created_at = now, cr_updated_at = now\<rparr>"]) simp
  next
    case (Some old)
    with r have "db' = db\<lparr>db_courses := (db_courses db)(i' \<mapsto>
                  old\<lparr>cr_title := t', cr_description := d',
                      cr_category := c', cr_image_url := img,
                      cr_is_published := p'\<rparr>)\<rparr>"
      by simp
    then show ?thesis using v Some
      by (intro exI[of _ i']
          exI[of _ "old\<lparr>cr_title := t', cr_description := d',
                      cr_category := c', cr_image_url := img,
                      cr_is_published := p'\<rparr>"]) simp
  qed
qed

lemma db_lessons_delete_lessons:
  "db_lessons (delete_lessons cond db) k =
     (case db_lessons db k of None \<Rightarrow> None
      | Some row \<Rightarrow> if cond k row then None else Some row)"
  by (simp add: delete_lessons_def)

lemma delete_lessons_other_tables:
  "db_modules (delete_lessons cond db) = db_modules db"
  "db_courses (delete_lessons cond db) = db_courses db"
  "db_profiles (delete_lessons cond db) = db_profiles db"
  by (simp_all add: delete_lessons_def)

lemma db_modules_delete_modules:
  "db_modules (delete_modules cond db) k =
     (case db_modules db k of None \<Rightarrow> None
      | Some row \<Rightarrow> if cond k row then None else Some row)"
  by (simp add: delete_modules_def delete_lessons_def)

lemma db_lessons_delete_modules:
  "db_lessons (delete_modules cond db) k =
     (case db_lessons db k of None \<Rightarrow> None
      | Some lrow \<Rightarrow>
          if (case db_modules db (lr_module_id lrow) of None \<Rightarrow> False
              | Some row \<Rightarrow> cond (lr_module_id lrow) row)
          then None else Some lrow)"
  by (simp add: delete_modules_def delete_lessons_def)

lemma delete_modules_other_tables:
  "db_courses (delete_modules cond db) = db_courses db"
  "db_profiles (delete_modules cond db) = db_profiles db"
  by (simp_all add: delete_modules_def delete_lessons_def)

lemma not_in_cond:
  "is_true (sql_and (sql_eq (Some a) v) (sql_not_in (Some k) ids)) \<longleftrightarrow>
     v = Some a \<and> Some k \<notin> set ids \<and> None \<notin> set ids"
  by (cases v) (auto simp: is_true_def sql_and_def sql_eq_def sql_not_in_def sql_not_def sql_in_def)

lemma for_loop_all:
  assumes "for_loop body xs db = Inr db'"
    and "\<And>x d d'. x \<in> set xs \<Longrightarrow> body x d = Inr d' \<Longrightarrow> P x"
  shows "\<forall>x\<in>set xs. P x"
  using assms
proof (induction xs arbitrary: db)
  case Nil
  then show ?case by simp
next
  case (Cons x xs)
  from Cons.prems(1) obtain d where d: "body x db = Inr d" and r: "for_loop body xs d = Inr db'"
    by (auto simp: seq_Inr_iff)
  have "P x" using Cons.prems(2)[OF _ d] by simp
  moreover have "\<forall>y\<in>set xs. P y" using Cons.IH[OF r] Cons.prems(2) by auto
  ultimately show ?case by simp
qed

lemma save_module_Inr:
  assumes "save_module now cv mj db = Inr db'"
  shows "\<exists>db1 db2. save_module_row now cv mj db = Inr db1 \<and>
    for_loop (\<lambda>lj. exec (save_lesson now (mj_id mj) lj)) (lessons_of mj) db1 = Inr db2 \<and>
    None \<notin> set (map lj_id (lessons_of mj)) \<and>
    db' = delete_lessons (\<lambda>k row. Some (lr_module_id row) = mj_id mj \<and>
                             Some k \<notin> set (map lj_id (lessons_of mj))) db2"
proof -
  from assms obtain db1 ls db2 where
    1: "save_module_row now cv mj db = Inr db1"
    and 2: "jsonb_array_elements (mj_lessons mj) = Inr ls"
    and 3: "for_loop (\<lambda>lj. exec (save_lesson now (mj_id mj) lj)) ls db1 = Inr db2"
    and 4: "delete_lessons_not_in (mj_id mj) (mj_lessons mj) db2 = Inr db'"
    by (auto simp: save_module_def Let_def seq_Inr_iff exec_Inr_iff)
  have ls: "ls = lessons_of mj" using 2 by (rule jsonb_array_elements_lessons)
  have "\<forall>lj\<in>set ls. lj_id lj \<noteq> None"
    using for_loop_all[OF 3, of "\<lambda>lj. lj_id lj \<noteq> None"]
    by (auto simp: exec_Inr_iff dest!: save_lesson_Inr)
  then have n: "None \<notin> set (map lj_id (lessons_of mj))" using ls by auto
  have "db' = delete_lessons (\<lambda>k row. is_true (sql_and (sql_eq (Some (lr_module_id row)) (mj_id mj))
                                          (sql_not_in (Some k) (map lj_id ls)))) db2"
    using 4 2 by (simp add: delete_lessons_not_in_def seq_def)
  then have "db' = delete_lessons (\<lambda>k row. Some (lr_module_id row) = mj_id mj \<and>
                             Some k \<notin> set (map lj_id (lessons_of mj))) db2"
    using n ls by (simp add: not_in_cond eq_commute[of "mj_id mj"])
  with 1 3 ls n show ?thesis by blast
qed

lemma save_course_with_children_Inr:
  assumes "save_course_with_children auth_uid now T db = Inr db'"
  shows "\<exists>db1 db2.
    \<not> is_true (sql_or (sql_is_null (cj_teacher_id T)) (sql_ne (cj_teacher_id T) auth_uid)) \<and>
    upsert_course now (cj_id T) (cj_title T) (cj_description T) (cj_category T)
      (nullif (cj_image_url T) ''null'') (cj_is_published T) (cj_teacher_id T) db = Inr db1 \<and>
    for_loop (save_module now (cj_id T)) (modules_of T) db1 = Inr db2 \<and>
    None \<notin> set (map mj_id (modules_of T)) \<and>
    db' = delete_modules (\<lambda>k row. Some (mr_course_id row) = cj_id T \<and>
                             Some k \<notin> set (map mj_id (modules_of T))) db2"
proof -
  from assms have a: "\<not> is_true (sql_or (sql_is_null (cj_teacher_id T))
      (sql_ne (cj_teacher_id T) auth_uid))"
    by (auto simp: save_course_with_children_def Let_def split: if_splits)
  with assms obtain db1 ms db2 where
    1: "upsert_course now (cj_id T) (cj_title T) (cj_description T) (cj_category T)
      (nullif (cj_image_url T) ''null'') (cj_is_published T) (cj_teacher_id T) db = Inr db1"
    and 2: "jsonb_array_elements (cj_modules T) = Inr ms"
    and 3: "for_loop (save_module now (cj_id T)) ms db1 = Inr db2"
    and 4: "delete_modules_not_in (cj_id T) (cj_modules T) db2 = Inr db'"
    by (auto simp: save_course_with_children_def Let_def seq_Inr_iff exec_Inr_iff)
  have ms: "ms = modules_of T" using 2 by (rule jsonb_array_elements_modules)
  have "\<forall>mj\<in>set ms. mj_id mj \<noteq> None"
    using for_loop_all[OF 3, of "\<lambda>mj. mj_id mj \<noteq> None"]
    by (auto dest!: save_module_Inr save_module_row_Inr)
  then have n: "None \<notin> set (map mj_id (modules_of T))" using ms by auto
  have "db' = delete_modules (\<lambda>k row. is_true (sql_and (sql_eq (Some (mr_course_id row)) (cj_id T))
                                          (sql_not_in (Some k) (map mj_id ms)))) db2"
    using 4 2 by (simp add: delete_modules_not_in_def seq_def)
  then have "db' = delete_modules (\<lambda>k row. Some (mr_course_id row) = cj_id T \<and>
                             Some k \<notin> set (map mj_id (modules_of T))) db2"
    using n ms by (simp add: not_in_cond eq_commute[of "cj_id T"])
  with a 1 3 ms n show ?thesis by blast
qed

subsection \<open>Deletion of what the payload does not list\<close>

lemma save_lesson_keeps_modules:
  "save_lesson now mv lj d = Inr d' \<Longrightarrow> db_modules d' = db_modules d"
  by (auto dest!: save_lesson_Inr)

lemma lesson_loop_keeps_modules:
  assumes "for_loop (\<lambda>lj. exec (save_lesson now mv lj)) ls d = Inr d'"
  shows "db_modules d' = db_modules d"
proof (rule for_loop_preserves[OF assms, of "\<lambda>x. db_modules x = db_modules d"])
  fix lj x x'
  assume "exec (save_lesson now mv lj) x = Inr x'" "db_modules x = db_modules d"
  then show "db_modules x' = db_modules d"
    using save_lesson_keeps_modules[of now mv lj x x'] by (simp add: exec_Inr_iff)
qed simp

lemma save_module_keeps_other_module:
  assumes "save_module now cv mj d = Inr d'" and "mj_id mj \<noteq> Some m"
  shows "db_modules d' m = db_modules d m"
proof -
  from save_module_Inr[OF assms(1)] obtain d1 d2 where
    1: "save_module_row now cv mj d = Inr d1"
    and 2: "for_loop (\<lambda>lj. exec (save_lesson now (mj_id mj) lj)) (lessons_of mj) d1 = Inr d2"
    and 3: "d' = delete_lessons (\<lambda>k row. Some (lr_module_id row) = mj_id mj \<and>
                             Some k \<notin> set (map lj_id (lessons_of mj))) d2"
    by blast
  from save_module_row_Inr[OF 1] assms(2) have "db_modules d1 m = db_modules d m" by auto
  then show ?thesis using lesson_loop_keeps_modules[OF 2] 3
    by (simp add: delete_lessons_other_tables)
qed

lemma lesson_loop_under:
  assumes "for_loop (\<lambda>lj. exec (save_lesson now mv lj)) ls d = Inr d'"
    and "mv \<noteq> Some M"
    and "\<forall>l lrow. db_lessons d l = Some lrow \<and> lr_module_id lrow = M \<longrightarrow> P l"
  shows "\<forall>l lrow. db_lessons d' l = Some lrow \<and> lr_module_id lrow = M \<longrightarrow> P l"
proof (rule for_loop_preserves[OF assms(1),
      of "\<lambda>x. \<forall>l lrow. db_lessons x l = Some lrow \<and> lr_module_id lrow = M \<longrightarrow> P l"])
  fix lj x x'
  assume s: "exec (save_lesson now mv lj) x = Inr x'"
    and g: "\<forall>l lrow. db_lessons x l = Some lrow \<and> lr_module_id lrow = M \<longrightarrow> P l"
  from s have "save_lesson now mv lj x = Inr x'" by (simp add: exec_Inr_iff)
  from save_lesson_Inr[OF this] obtain i' m' row where
    mv: "mv = Some m'" and x': "x' = x\<lparr>db_lessons := (db_lessons x)(i' \<mapsto> row)\<rparr>"
    and mo: "lr_module_id row = (case db_lessons x i' of Some old \<Rightarrow> lr_module_id old | None \<Rightarrow> m')"
    by blast
  show "\<forall>l lrow. db_lessons x' l = Some lrow \<and> lr_module_id lrow = M \<longrightarrow> P l"
  proof (intro allI impI)
    fix l lrow
    assume a: "db_lessons x' l = Some lrow \<and> lr_module_id lrow = M"
    show "P l"
    proof (cases "l = i'")
      case False
      with a x' g show ?thesis by auto
    next
      case True
      with a x' have lrow: "lrow = row" by simp
      show ?thesis
      proof (cases "db_lessons x i'")
        case None
        with mo lrow a mv assms(2) show ?thesis by simp
      next
        case (Some old)
        with mo lrow a have "lr_module_id old = M" by simp
        with g Some True show ?thesis by blast
      qed
    qed
  qed
qed (rule assms(3))

lemma save_module_under:
  assumes "save_module now cv mj d = Inr d'"
    and "mj_id mj = Some M \<longrightarrow> (\<forall>l. Some l \<in> set (map lj_id (lessons_of mj)) \<longrightarrow> P l)"
    and "(\<forall>l lrow. db_lessons d l = Some lrow \<and> lr_module_id lrow = M \<longrightarrow> P l) \<or> mj_id mj = Some M"
  shows "\<forall>l lrow. db_lessons d' l = Some lrow \<and> lr_module_id lrow = M \<longrightarrow> P l"
proof -
  from save_module_Inr[OF assms(1)] obtain d1 d2 where
    1: "save_module_row now cv mj d = Inr d1"
    and 2: "for_loop (\<lambda>lj. exec (save_lesson now (mj_id mj) lj)) (lessons_of mj) d1 = Inr d2"
    and 3: "d' = delete_lessons (\<lambda>k row. Some (lr_module_id row) = mj_id mj \<and>
                             Some k \<notin> set (map lj_id (lessons_of mj))) d2"
    by blast
  show ?thesis
  proof (cases "mj_id mj = Some M")
    case True
    show ?thesis
    proof (intro allI impI)
      fix l lrow
      assume "db_lessons d' l = Some lrow \<and> lr_module_id lrow = M"
      with 3 True have "Some l \<in> set (map lj_id (lessons_of mj))"
        by (auto simp: db_lessons_delete_lessons split: option.splits if_splits)
      with assms(2) True show "P l" by blast
    qed
  next
    case False
    with assms(3) have g: "\<forall>l lrow. db_lessons d l = Some lrow \<and> lr_module_id lrow = M \<longrightarrow> P l"
      by blast
    from save_module_row_Inr[OF 1] have "db_lessons d1 = db_lessons d" by auto
    with g have "\<forall>l lrow. db_lessons d1 l = Some lrow \<and> lr_module_id lrow = M \<longrightarrow> P l"
      by simp
    from lesson_loop_under[OF 2 False this]
    show ?thesis using 3
      by (auto simp: db_lessons_delete_lessons split: option.splits if_splits)
  qed
qed

lemma save_deletes_unlisted_module:
  assumes s: "save_course_with_children auth_uid now T db = Inr db'"
    and a: "db_modules db m = Some row" "Some (mr_course_id row) = cj_id T"
      "Some m \<notin> set (map mj_id (modules_of T))"
  shows "db_modules db' m = None \<and>
         (\<forall>l lrow. db_lessons db' l = Some lrow \<longrightarrow> lr_module_id lrow \<noteq> m)"
proof -
  from save_course_with_children_Inr[OF s] obtain db1 db2 where
    1: "upsert_course now (cj_id T) (cj_title T) (cj_description T) (cj_category T)
      (nullif (cj_image_url T) ''null'') (cj_is_published T) (cj_teacher_id T) db = Inr db1"
    and 2: "for_loop (save_module now (cj_id T)) (modules_of T) db1 = Inr db2"
    and 3: "db' = delete_modules (\<lambda>k row. Some (mr_course_id row) = cj_id T \<and>
                             Some k \<notin> set (map mj_id (modules_of T))) db2"
    by blast
  have m1: "db_modules db1 = db_modules db"
    using upsert_course_Inr[OF 1] by auto
  have "db_modules db2 m = Some row"
  proof (rule for_loop_preserves[OF 2, of "\<lambda>x. db_modules x m = Some row"])
    fix mj x x'
    assume mj: "mj \<in> set (modules_of T)" and s: "save_module now (cj_id T) mj x = Inr x'"
      and g: "db_modules x m = Some row"
    from mj a have "mj_id mj \<noteq> Some m" by force
    from save_module_keeps_other_module[OF s this] g
    show "db_modules x' m = Some row" by simp
  qed (use a m1 in simp)
  with a 3 show ?thesis
    by (auto simp: db_modules_delete_modules db_lessons_delete_modules
        split: option.splits if_splits)
qed

lemma save_keeps_listed_modules_only:
  assumes s: "save_course_with_children auth_uid now T db = Inr db'"
    and a: "db_modules db' m = Some row" "Some (mr_course_id row) = cj_id T"
  shows "Some m \<in> set (map mj_id (modules_of T))"
proof -
  from save_course_with_children_Inr[OF s] obtain db2 where
    "db' = delete_modules (\<lambda>k row. Some (mr_course_id row) = cj_id T \<and>
                             Some k \<notin> set (map mj_id (modules_of T))) db2"
    by blast
  with a show ?thesis
    by (auto simp: db_modules_delete_modules split: option.splits if_splits)
qed

lemma save_keeps_listed_lessons_only:
  assumes s: "save_course_with_children auth_uid now T db = Inr db'"
    and a: "Some M \<in> set (map mj_id (modules_of T))" "db_lessons db' l = Some lrow"
      "lr_module_id lrow = M"
  shows "\<exists>mj\<in>set (modules_of T). mj_id mj = Some M \<and> Some l \<in> set (map lj_id (lessons_of mj))"
proof -
  from save_course_with_children_Inr[OF s] obtain db1 db2 where
    2: "for_loop (save_module now (cj_id T)) (modules_of T) db1 = Inr db2"
    and 3: "db' = delete_modules (\<lambda>k row. Some (mr_course_id row) = cj_id T \<and>
                             Some k \<notin> set (map mj_id (modules_of T))) db2"
    by blast
  let ?P = "\<lambda>l. \<exists>mj\<in>set (modules_of T). mj_id mj = Some M \<and>
                 Some l \<in> set (map lj_id (lessons_of mj))"
  have "\<forall>l lrow. db_lessons db2 l = Some lrow \<and> lr_module_id lrow = M \<longrightarrow> ?P l"
  proof (rule for_loop_invariant[OF 2,
        of "\<lambda>x. \<forall>l lrow. db_lessons x l = Some lrow \<and> lr_module_id lrow = M \<longrightarrow> ?P l"
           "\<lambda>mj. mj_id mj = Some M"])
    fix mj x x'
    assume mj: "mj \<in> set (modules_of T)" and s: "save_module now (cj_id T) mj x = Inr x'"
      and g: "(\<forall>l lrow. db_lessons x l = Some lrow \<and> lr_module_id lrow = M \<longrightarrow> ?P l) \<or>
              mj_id mj = Some M"
    have "mj_id mj = Some M \<longrightarrow> (\<forall>l. Some l \<in> set (map lj_id (lessons_of mj)) \<longrightarrow> ?P l)"
      using mj by blast
    from save_module_under[OF s this g]
    show "\<forall>l lrow. db_lessons x' l = Some lrow \<and> lr_module_id lrow = M \<longrightarrow> ?P l" .
  next
    show "(\<forall>l lrow. db_lessons db1 l = Some lrow \<and> lr_module_id lrow = M \<longrightarrow> ?P l) \<or>
          (\<exists>mj\<in>set (modules_of T). mj_id mj = Some M)"
      using a by auto
  qed
  moreover from a 3 have "db_lessons db2 l = Some lrow"
    by (auto simp: db_lessons_delete_modules split: option.splits if_splits)
  ultimately show ?thesis using a by blast
qed

lemma save_keeps_own_lessons_only:
  assumes s: "save_course_with_children auth_uid now T db = Inr db'"
    and d: "distinct (map mj_id (modules_of T))" and mj: "mj \<in> set (modules_of T)"
    and a: "db_lessons db' l = Some lrow" "Some (lr_module_id lrow) = mj_id mj"
  shows "Some l \<in> set (map lj_id (lessons_of mj))"
proof -
  from mj a have "Some (lr_module_id lrow) \<in> set (map mj_id (modules_of T))" by auto
  from save_keeps_listed_lessons_only[OF s this a(1) refl]
  obtain mj' where mj': "mj' \<in> set (modules_of T)"
    "mj_id mj' = Some (lr_module_id lrow)" "Some l \<in> set (map lj_id (lessons_of mj'))"
    by blast
  from d mj mj' a have "mj' = mj"
    by (metis distinct_map inj_on_eq_iff)
  with mj' show ?thesis by simp
qed

text \<open>
  Claim C3. After a successful save: a module row of the course that the payload does
  not list is gone together with every lesson row that referred to it; no module row
  of the course outside the payload's list remains; and a lesson row under a module
  that the payload lists is listed there, under an entry for that module. When the
  module ids of the payload are distinct, that entry is the module's one entry, so
  each module keeps only the lessons of its own list. An empty list is the case in
  which nothing is listed.
\<close>

theorem save_course_with_children_deletes_unlisted:
  assumes "rpc_save_course_with_children auth_uid now T db = (None, db')"
  shows "(\<forall>m row. db_modules db m = Some row \<and> Some (mr_course_id row) = cj_id T \<and>
            Some m \<notin> set (map mj_id (modules_of T)) \<longrightarrow>
              db_modules db' m = None \<and>
              (\<forall>l lrow. db_lessons db' l = Some lrow \<longrightarrow> lr_module_id lrow \<noteq> m)) \<and>
         (\<forall>m row. db_modules db' m = Some row \<and> Some (mr_course_id row) = cj_id T \<longrightarrow>
            Some m \<in> set (map mj_id (modules_of T))) \<and>
         (\<forall>M l lrow. Some M \<in> set (map mj_id (modules_of T)) \<and>
            db_lessons db' l = Some lrow \<and> lr_module_id lrow = M \<longrightarrow>
              (\<exists>mj\<in>set (modules_of T). mj_id mj = Some M \<and>
                 Some l \<in> set (map lj_id (lessons_of mj)))) \<and>
         (distinct (map mj_id (modules_of T)) \<longrightarrow>
            (\<forall>mj\<in>set (modules_of T). \<forall>l lrow.
               db_lessons db' l = Some lrow \<and> Some (lr_module_id lrow) = mj_id mj \<longrightarrow>
                 Some l \<in> set (map lj_id (lessons_of mj))))"
proof -
  from assms have s: "save_course_with_children auth_uid now T db = Inr db'"
    by (simp add: rpc_save_course_with_children_def rpc_None_iff)
  show ?thesis
    using save_deletes_unlisted_module[OF s] save_keeps_listed_modules_only[OF s]
      save_keeps_listed_lessons_only[OF s] save_keeps_own_lessons_only[OF s]
    by (intro conjI allI impI ballI) blast+
qed

theorem save_course_with_children_deletes_unlisted_witness:
  "fst (rpc_save_course_with_children (Some ''t1'') 10 demo_tree_moved demo_db) = None \<and>
   map_option mr_course_id (db_modules demo_db ''m1'') = Some ''c1'' \<and>
   cj_id demo_tree_moved = Some ''c1'' \<and>
   Some ''m1'' \<notin> set (map mj_id (modules_of demo_tree_moved)) \<and>
   db_modules (snd (rpc_save_course_with_children (Some ''t1'') 10 demo_tree_moved demo_db))
     ''m1'' = None \<and>
   db_lessons (snd (rpc_save_course_with_children (Some ''t1'') 10 demo_tree_moved demo_db))
     ''l1'' = None"
proof -
  let ?r = "rpc_save_course_with_children (Some ''t1'') 10 demo_tree_moved demo_db"
  have f: "fst ?r = None" by code_simp
  then have ok: "?r = (None, snd ?r)" by (simp add: prod_eq_iff)
  obtain row where row: "db_modules demo_db ''m1'' = Some row" "mr_course_id row = ''c1''"
    by (simp add: demo_db_def)
  have c: "cj_id demo_tree_moved = Some ''c1''"
    by (simp add: demo_tree_moved_def demo_tree_def)
  have n: "Some ''m1'' \<notin> set (map mj_id (modules_of demo_tree_moved))"
    by (simp add: modules_of_def demo_tree_moved_def)
  have l: "db_lessons (snd ?r) ''l1'' = None" by code_simp
  from save_course_with_children_deletes_unlisted[OF ok]
  have "\<forall>m row. db_modules demo_db m = Some row \<and>
          Some (mr_course_id row) = cj_id demo_tree_moved \<and>
          Some m \<notin> set (map mj_id (modules_of demo_tree_moved)) \<longrightarrow>
            db_modules (snd ?r) m = None \<and>
            (\<forall>l lrow. db_lessons (snd ?r) l = Some lrow \<longrightarrow> lr_module_id lrow \<noteq> m)"
    by (rule conjunct1)
  from this[rule_format, of "''m1''" row] row c n
  have "db_modules (snd ?r) ''m1'' = None" by simp
  with f row c n l show ?thesis by simp
qed

subsection \<open>Content fields\<close>


lemma save_lesson_keeps_other_lesson:
  assumes "save_lesson now mv lj db = Inr db'" and "lj_id lj \<noteq> Some l"
  shows "db_lessons db' l = db_lessons db l"
  using save_lesson_Inr[OF assms(1)] assms(2) by auto






subsection \<open>The ownership check\<close>

text \<open>
  The function of the last migration refuses a caller with a session whose id is not
  the payload's \<^verbatim>\<open>teacher_id\<close>, before any statement runs, and the call leaves the
  database as it was.
\<close>

lemma save_course_with_children_owner_check:
  assumes "cj_teacher_id T \<noteq> Some u"
  shows "save_course_with_children (Some u) now T db =
           Inl (raise_exception ''User does not have permission to edit this course'', db) \<and>
         rpc_save_course_with_children (Some u) now T db =
           (Some (raise_exception ''User does not have permission to edit this course''), db)"
proof -
  have "is_true (sql_or (sql_is_null (cj_teacher_id T)) (sql_ne (cj_teacher_id T) (Some u)))"
    using assms
    by (cases "cj_teacher_id T") (simp_all add: is_true_def sql_or_def sql_is_null_def sql_ne_def)
  then show ?thesis
    by (simp add: save_course_with_children_def rpc_save_course_with_children_def rpc_def Let_def)
qed

lemma save_course_with_children_owner_check_witness:
  "cj_teacher_id demo_tree \<noteq> Some ''t2'' \<and>
   rpc_save_course_with_children (Some ''t2'') 10 demo_tree demo_db =
     (Some (raise_exception ''User does not have permission to edit this course''), demo_db)"
  using save_course_with_children_owner_check[of demo_tree "''t2''" 10 demo_db]
  by (simp add: demo_tree_def)

text \<open>
  A caller without a session is not refused: \<^verbatim>\<open>auth.uid()\<close> is \<^verbatim>\<open>NULL\<close>, the
  comparison \<^verbatim>\<open>teacher_id_val != auth.uid()\<close> is \<^verbatim>\<open>NULL\<close>, and the \<^verbatim>\<open>IF\<close> does not
  fire. The call below renames the course of teacher \<open>t1\<close>.
\<close>

lemma save_course_with_children_without_session:
  "fst (rpc_save_course_with_children None 10 demo_tree demo_db) = None \<and>
   map_option cr_title
     (db_courses (snd (rpc_save_course_with_children None 10 demo_tree demo_db)) ''c1'')
     = Some ''Linear Algebra''"
  by code_simp

text \<open>
  Claim C1 fails on the function as SETUP\_COMPLETO\_NUEVO\_PROYECTO.sql defines it.
  That version has no ownership check: called by \<open>t2\<close> with the course of \<open>t1\<close>, it
  raises nothing, renames the course, and replaces its modules and lessons.
\<close>

theorem setup_version_has_no_owner_check:
  "cj_teacher_id demo_tree \<noteq> Some ''t2'' \<and>
   fst (rpc_save_course_with_children_setup (Some ''t2'') 10 demo_tree demo_db) = None \<and>
   map_option cr_title (db_courses demo_db ''c1'') = Some ''Algebra'' \<and>
   map_option cr_title
     (db_courses (snd (rpc_save_course_with_children_setup (Some ''t2'') 10 demo_tree demo_db))
        ''c1'') = Some ''Linear Algebra'' \<and>
   map_option lr_file_name (db_lessons demo_db ''l1'') = Some (Some ''talk.mp4'') \<and>
   map_option lr_file_name
     (db_lessons (snd (rpc_save_course_with_children_setup (Some ''t2'') 10 demo_tree demo_db))
        ''l1'') = Some None"
  by code_simp

subsection \<open>A payload that fails half way\<close>

text \<open>
  The body is not all or nothing by itself: on the payload whose second module has no
  title, the course upsert and the first module have been written to the working
  state when the insert of the second module fails. That the caller finds the
  database unchanged is the rollback built into \<open>rpc\<close>.
\<close>

lemma demo_tree_broken_fails:
  "fst (rpc_save_course_with_children (Some ''t1'') 10 demo_tree_broken demo_db)
     = Some (not_null_violation ''modules'' ''title'')"
  by code_simp

lemma demo_tree_broken_working_state:
  "(case save_course_with_children (Some ''t1'') 10 demo_tree_broken demo_db of
      Inl (e, working) \<Rightarrow> map_option cr_title (db_courses working ''c1'') = Some ''Linear Algebra''
    | Inr _ \<Rightarrow> False) \<and>
   map_option cr_title (db_courses demo_db ''c1'') = Some ''Algebra''"
  by code_simp

subsection \<open>Saving twice\<close>

text \<open>
  Claim C5 fails on the function. The lesson upsert keeps the \<^verbatim>\<open>module_id\<close> of a row
  that exists. When the payload lists a lesson under another module than the one its
  row belongs to, the first call updates the row where it is, and the row is then
  deleted with the lessons the old module no longer lists (here: with the old module
  itself). The second call finds no row and inserts the lesson under the payload's
  module. The state after two calls differs from the state after one.
\<close>

theorem save_twice_differs_when_lesson_moves:
  "fst (rpc_save_course_with_children (Some ''t1'') 10 demo_tree_moved demo_db) = None \<and>
   db_lessons (snd (rpc_save_course_with_children (Some ''t1'') 10 demo_tree_moved demo_db))
     ''l1'' = None \<and>
   fst (rpc_save_course_with_children (Some ''t1'') 10 demo_tree_moved
          (snd (rpc_save_course_with_children (Some ''t1'') 10 demo_tree_moved demo_db))) = None \<and>
   map_option lr_module_id
     (db_lessons
        (snd (rpc_save_course_with_children (Some ''t1'') 10 demo_tree_moved
               (snd (rpc_save_course_with_children (Some ''t1'') 10 demo_tree_moved demo_db))))
        ''l1'') = Some ''m2''"
  by code_simp

subsection \<open>Saving twice, when no lesson changes its module\<close>

lemma for_loop_invariant2:
  assumes "for_loop body xs db = Inr db'"
    and "\<And>x d d'. x \<in> set xs \<Longrightarrow> body x d = Inr d' \<Longrightarrow> P d \<Longrightarrow> P d'"
    and "\<And>x d d'. x \<in> set xs \<Longrightarrow> body x d = Inr d' \<Longrightarrow> P d \<Longrightarrow> G d \<or> est x \<Longrightarrow> G d'"
    and "P db"
    and "G db \<or> (\<exists>x\<in>set xs. est x)"
  shows "P db' \<and> G db'"
  using assms
proof (induction xs arbitrary: db)
  case Nil
  then show ?case by simp
next
  case (Cons x xs)
  from Cons.prems(1) obtain d where d: "body x db = Inr d" and r: "for_loop body xs d = Inr db'"
    by (auto simp: seq_Inr_iff)
  have p: "P d" using Cons.prems(2)[OF _ d Cons.prems(4)] by simp
  have g: "G d \<or> (\<exists>x\<in>set xs. est x)"
  proof (cases "G db \<or> est x")
    case True
    then have "G d" using Cons.prems(3)[OF _ d Cons.prems(4)] by simp
    then show ?thesis ..
  next
    case False
    then show ?thesis using Cons.prems(5) by auto
  qed
  show ?case
  proof (rule Cons.IH[OF r _ _ p g])
    fix y e e'
    assume y: "y \<in> set xs" and b: "body y e = Inr e'" and pe: "P e"
    from y have y': "y \<in> set (x # xs)" by simp
    show "P e'" using Cons.prems(2)[OF y' b pe] .
    assume "G e \<or> est y"
    then show "G e'" using Cons.prems(3)[OF y' b pe] by simp
  qed
qed

lemma for_loop_identity:
  assumes "\<And>x. x \<in> set xs \<Longrightarrow> body x db = Inr db"
  shows "for_loop body xs db = Inr db"
  using assms by (induction xs) (simp_all add: seq_def)

lemma delete_lessons_identity:
  assumes "\<And>k row. db_lessons db k = Some row \<Longrightarrow> \<not> cond k row"
  shows "delete_lessons cond db = db"
proof -
  have l: "(\<lambda>k. case db_lessons db k of None \<Rightarrow> None
                 | Some row \<Rightarrow> if cond k row then None else Some row) = db_lessons db"
    using assms by (auto split: option.splits)
  have p: "filter (\<lambda>p. case db_lessons db (pr_lesson_id p) of None \<Rightarrow> True
                       | Some row \<Rightarrow> \<not> cond (pr_lesson_id p) row) (db_progress db)
           = db_progress db"
    using assms by (auto simp: filter_id_conv split: option.splits)
  show ?thesis unfolding delete_lessons_def l p by simp
qed

lemma delete_modules_identity:
  assumes "\<And>k row. db_modules db k = Some row \<Longrightarrow> \<not> cond k row"
  shows "delete_modules cond db = db"
proof -
  have m: "(\<lambda>k. case db_modules db k of None \<Rightarrow> None
                 | Some row \<Rightarrow> if cond k row then None else Some row) = db_modules db"
    using assms by (auto split: option.splits)
  have "delete_modules cond db =
      delete_lessons (\<lambda>_ lesson. case db_modules db (lr_module_id lesson) of
                      None \<Rightarrow> False
                    | Some row \<Rightarrow> cond (lr_module_id lesson) row) db"
    unfolding delete_modules_def m by simp
  also have "\<dots> = db"
    using assms by (intro delete_lessons_identity) (auto split: option.splits)
  finally show ?thesis .
qed

lemma upsert_course_identity:
  assumes "db_courses db i = Some row" and "cr_title row = t" and "cr_description row = d"
    and "cr_category row = c" and "cr_image_url row = img" and "cr_is_published row = p"
  shows "upsert_course now (Some i) (Some t) (Some d) (Some c) img (Some p) (Some tid) db = Inr db"
proof -
  have "row\<lparr>cr_title := t, cr_description := d, cr_category := c, cr_image_url := img,
            cr_is_published := p\<rparr> = row"
    using assms by simp
  moreover have "(db_courses db)(i \<mapsto> row) = db_courses db"
    using assms(1) by (rule map_upd_triv)
  ultimately show ?thesis
    using assms(1) by (simp add: upsert_course_def seq_def not_null_def)
qed

lemma upsert_module_identity:
  assumes "db_modules db i = Some row" and "mr_title row = t" and "mr_order row = ord"
  shows "upsert_module now (Some i) (Some c) (Some t) (Some ord) db = Inr db"
proof -
  have "row\<lparr>mr_title := t, mr_order := ord\<rparr> = row" using assms by simp
  moreover have "(db_modules db)(i \<mapsto> row) = db_modules db"
    using assms(1) by (rule map_upd_triv)
  ultimately show ?thesis
    using assms(1) by (simp add: upsert_module_def seq_def not_null_def)
qed

lemma upsert_lesson_identity:
  assumes "db_lessons db i = Some row" and "lr_title row = t" and "lr_order row = ord"
    and "lr_file_name row = fn" and "lr_file_type row = ft" and "lr_file_url row = fu"
    and "lr_file_size row = fs"
  shows "upsert_lesson now (Some i) (Some m) (Some t) (Some ord) fn ft fu fs db = Inr db"
proof -
  have "row\<lparr>lr_title := t, lr_order := ord, lr_file_name := fn, lr_file_type := ft,
            lr_file_url := fu, lr_file_size := fs\<rparr> = row"
    using assms by simp
  moreover have "(db_lessons db)(i \<mapsto> row) = db_lessons db"
    using assms(1) by (rule map_upd_triv)
  ultimately show ?thesis
    using assms(1) by (simp add: upsert_lesson_def seq_def not_null_def)
qed

lemma save_lesson_stores:
  assumes "save_lesson now (Some M) lj d = Inr d'"
    and "\<forall>i row. lj_id lj = Some i \<and> db_lessons d i = Some row \<longrightarrow> lr_module_id row = M"
  shows "lesson_stored M lj d'"
proof -
  from save_lesson_Inr[OF assms(1)] obtain i' m' row where
    i: "lj_id lj = Some i'" and m: "Some M = Some m'"
    and d': "d' = d\<lparr>db_lessons := (db_lessons d)(i' \<mapsto> row)\<rparr>"
    and c: "content_written lj row" and t: "Some (lr_title row) = lj_title lj"
    and o: "Some (lr_order row) = lj_order lj"
    and mo: "lr_module_id row = (case db_lessons d i' of Some old \<Rightarrow> lr_module_id old | None \<Rightarrow> m')"
    by blast
  have "lr_module_id row = M"
    using mo m assms(2) i by (cases "db_lessons d i'") auto
  with i d' c t o show ?thesis
    unfolding lesson_stored_def by (intro exI[of _ i'] exI[of _ row]) simp
qed

lemma save_lesson_identity:
  assumes first: "save_lesson now mv lj d0 = Inr d0'"
    and st: "lesson_stored M lj d"
  shows "save_lesson now' (Some M) lj d = Inr d"
proof -
  from st obtain i row where i: "lj_id lj = Some i" and r: "db_lessons d i = Some row"
    and t: "Some (lr_title row) = lj_title lj" and o: "Some (lr_order row) = lj_order lj"
    and c: "content_written lj row"
    unfolding lesson_stored_def by blast
  have co: "cast_integer (lj_order lj) = Inr (lj_order lj)"
    using first by (auto simp: save_lesson_def seq_Inr_iff split: if_splits dest: cast_integer_Inr)
  show ?thesis
  proof (cases "\<exists>cn. lj_content lj = Value cn")
    case False
    then have n: "\<not> is_true (sql_and (jsonb_is_not_null (lj_content lj)) (jsonb_ne_null (lj_content lj)))"
      by (cases "lj_content lj")
        (simp_all add: jsonb_is_not_null_def jsonb_ne_null_def sql_and_def is_true_def)
    from False c have f: "lr_file_name row = None" "lr_file_type row = None"
      "lr_file_url row = None" "lr_file_size row = None"
      by (cases "lj_content lj"; simp add: content_written_def)+
    have "upsert_lesson now' (Some i) (Some M) (Some (lr_title row)) (Some (lr_order row))
        None None None None d = Inr d"
      using r f by (intro upsert_lesson_identity) simp_all
    then show ?thesis
      using n co i t o by (simp add: save_lesson_def seq_def)
  next
    case True
    then obtain cn where cn: "lj_content lj = Value cn" ..
    then have n: "is_true (sql_and (jsonb_is_not_null (lj_content lj)) (jsonb_ne_null (lj_content lj)))"
      by (simp add: jsonb_is_not_null_def jsonb_ne_null_def sql_and_def is_true_def)
    from cn c have f: "lr_file_name row = cn_name cn"
      "cast_file_type (cn_type cn) = Inr (lr_file_type row)"
      "lr_file_url row = cn_url cn" "lr_file_size row = cn_size cn"
      by (simp_all add: content_written_def)
    have cb: "cast_bigint (cn_size cn) = Inr (cn_size cn)"
      using first n cn
      by (auto simp: save_lesson_def seq_Inr_iff content_field_def dest: cast_bigint_Inr)
    have "upsert_lesson now' (Some i) (Some M) (Some (lr_title row)) (Some (lr_order row))
        (cn_name cn) (lr_file_type row) (cn_url cn) (cn_size cn) d = Inr d"
      using r f by (intro upsert_lesson_identity) simp_all
    then show ?thesis
      using n co cb f(2) i t o cn by (simp add: save_lesson_def seq_def content_field_def)
  qed
qed

lemma save_module_row_stores:
  assumes "save_module_row now cv mj d = Inr d'"
  shows "module_stored mj d'"
proof -
  from save_module_row_Inr[OF assms] obtain i' row where
    "mj_id mj = Some i'" "d' = d\<lparr>db_modules := (db_modules d)(i' \<mapsto> row)\<rparr>"
    "Some (mr_title row) = mj_title mj" "Some (mr_order row) = mj_order mj"
    by blast
  then show ?thesis
    unfolding module_stored_def by (intro exI[of _ i'] exI[of _ row]) simp
qed

lemma save_module_row_identity:
  assumes first: "save_module_row now cv mj d0 = Inr d0'"
    and st: "module_stored mj d"
  shows "save_module_row now' cv mj d = Inr d"
proof -
  from st obtain i row where i: "mj_id mj = Some i" and r: "db_modules d i = Some row"
    and t: "Some (mr_title row) = mj_title mj" and o: "Some (mr_order row) = mj_order mj"
    unfolding module_stored_def by blast
  from save_module_row_Inr[OF first] obtain c where c: "cv = Some c" by blast
  have co: "cast_integer (mj_order mj) = Inr (mj_order mj)"
    using first by (auto simp: save_module_row_def seq_Inr_iff dest: cast_integer_Inr)
  have "upsert_module now' (Some i) (Some c) (Some (mr_title row)) (Some (mr_order row)) d = Inr d"
    using r by (intro upsert_module_identity) simp_all
  then show ?thesis
    using co i t o c by (simp add: save_module_row_def seq_def)
qed

lemma upsert_course_stores:
  assumes "upsert_course now (cj_id T) (cj_title T) (cj_description T) (cj_category T)
      (nullif (cj_image_url T) ''null'') (cj_is_published T) (cj_teacher_id T) d = Inr d'"
  shows "course_stored T d'"
proof -
  from upsert_course_Inr[OF assms] obtain i' row where
    "cj_id T = Some i'" "d' = d\<lparr>db_courses := (db_courses d)(i' \<mapsto> row)\<rparr>"
    "Some (cr_title row) = cj_title T" "Some (cr_description row) = cj_description T"
    "Some (cr_category row) = cj_category T" "cr_image_url row = nullif (cj_image_url T) ''null''"
    "Some (cr_is_published row) = cj_is_published T"
    by blast
  then show ?thesis
    unfolding course_stored_def by (intro exI[of _ i'] exI[of _ row]) simp
qed

lemma upsert_course_stored_identity:
  assumes st: "course_stored T d" and tid: "cj_teacher_id T \<noteq> None"
  shows "upsert_course now' (cj_id T) (cj_title T) (cj_description T) (cj_category T)
      (nullif (cj_image_url T) ''null'') (cj_is_published T) (cj_teacher_id T) d = Inr d"
proof -
  from st obtain i row where i: "cj_id T = Some i" and r: "db_courses d i = Some row"
    and f: "Some (cr_title row) = cj_title T" "Some (cr_description row) = cj_description T"
      "Some (cr_category row) = cj_category T" "cr_image_url row = nullif (cj_image_url T) ''null''"
      "Some (cr_is_published row) = cj_is_published T"
    unfolding course_stored_def by blast
  from tid obtain t where t: "cj_teacher_id T = Some t" by auto
  have "upsert_course now' (Some i) (Some (cr_title row)) (Some (cr_description row))
      (Some (cr_category row)) (nullif (cj_image_url T) ''null'') (Some (cr_is_published row))
      (Some t) d = Inr d"
    using r f(4) by (intro upsert_course_identity) simp_all
  then show ?thesis using i f t by simp
qed

lemma lesson_stored_cong:
  assumes "lj_id lj = Some L" and "db_lessons d' L = db_lessons d L"
  shows "lesson_stored M lj d' = lesson_stored M lj d"
  using assms by (simp add: lesson_stored_def)

lemma module_stored_cong:
  assumes "mj_id mj = Some M" and "db_modules d' M = db_modules d M"
  shows "module_stored mj d' = module_stored mj d"
  using assms by (simp add: module_stored_def)

lemma distinct_concat_disjoint:
  assumes "distinct (map f (concat (map g xs)))" and "x \<in> set xs" and "y \<in> set xs"
    and "a \<in> set (g x)" and "b \<in> set (g y)" and "f a = f b"
  shows "a = b"
  using assms
proof (induction xs)
  case Nil
  then show ?case by simp
next
  case (Cons z zs)
  from Cons.prems(1) have dz: "distinct (map f (g z))"
    and dzs: "distinct (map f (concat (map g zs)))"
    and dj: "f ` set (g z) \<inter> f ` set (concat (map g zs)) = {}"
    by auto
  consider "x = z" "y = z" | "x = z" "y \<in> set zs" | "x \<in> set zs" "y = z"
    | "x \<in> set zs" "y \<in> set zs"
    using Cons.prems(2,3) by auto
  then show ?case
  proof cases
    case 1
    with dz Cons.prems(4,5,6) show ?thesis
      by (metis distinct_map inj_on_eq_iff)
  next
    case 2
    with Cons.prems(4,5) have "f a \<in> f ` set (g z)" "f b \<in> f ` set (concat (map g zs))"
      by auto
    with dj Cons.prems(6) show ?thesis by auto
  next
    case 3
    with Cons.prems(4,5) have "f b \<in> f ` set (g z)" "f a \<in> f ` set (concat (map g zs))"
      by auto
    with dj Cons.prems(6) show ?thesis by auto
  next
    case 4
    with Cons.IH[OF dzs] Cons.prems(4,5,6) show ?thesis by simp
  qed
qed

lemma distinct_concat_same_part:
  assumes "distinct (map f (concat (map g xs)))" and "distinct xs"
    and "x \<in> set xs" and "y \<in> set xs"
    and "a \<in> set (g x)" and "a \<in> set (g y)"
  shows "x = y"
  using assms
proof (induction xs)
  case Nil
  then show ?case by simp
next
  case (Cons z zs)
  from Cons.prems(1) have dzs: "distinct (map f (concat (map g zs)))"
    and dj: "f ` set (g z) \<inter> f ` set (concat (map g zs)) = {}"
    by auto
  consider "x = z" "y = z" | "x = z" "y \<in> set zs" | "x \<in> set zs" "y = z"
    | "x \<in> set zs" "y \<in> set zs"
    using Cons.prems(3,4) by auto
  then show ?case
  proof cases
    case 1
    then show ?thesis by simp
  next
    case 2
    with Cons.prems(5,6) have "f a \<in> f ` set (g z)" "f a \<in> f ` set (concat (map g zs))"
      by auto
    with dj show ?thesis by auto
  next
    case 3
    with Cons.prems(5,6) have "f a \<in> f ` set (g z)" "f a \<in> f ` set (concat (map g zs))"
      by auto
    with dj show ?thesis by auto
  next
    case 4
    with Cons.IH[OF dzs] Cons.prems(2,5,6) show ?thesis by simp
  qed
qed

lemma save_module_keeps_parent:
  assumes s: "save_module now cv mj' d = Inr d'"
    and p: "\<forall>row. db_lessons d L = Some row \<longrightarrow> lr_module_id row = M"
    and u: "\<forall>lj'\<in>set (lessons_of mj'). lj_id lj' = Some L \<longrightarrow> mj_id mj' = Some M"
  shows "\<forall>row. db_lessons d' L = Some row \<longrightarrow> lr_module_id row = M"
proof -
  from save_module_Inr[OF s] obtain d1 d2 where
    1: "save_module_row now cv mj' d = Inr d1"
    and 2: "for_loop (\<lambda>lj. exec (save_lesson now (mj_id mj') lj)) (lessons_of mj') d1 = Inr d2"
    and 3: "d' = delete_lessons (\<lambda>k row. Some (lr_module_id row) = mj_id mj' \<and>
                             Some k \<notin> set (map lj_id (lessons_of mj'))) d2"
    by blast
  from save_module_row_Inr[OF 1] have "db_lessons d1 = db_lessons d" by auto
  with p have p1: "\<forall>row. db_lessons d1 L = Some row \<longrightarrow> lr_module_id row = M" by simp
  have "\<forall>row. db_lessons d2 L = Some row \<longrightarrow> lr_module_id row = M"
  proof (rule for_loop_preserves[OF 2,
        of "\<lambda>x. \<forall>row. db_lessons x L = Some row \<longrightarrow> lr_module_id row = M"])
    fix lj' x x'
    assume lj': "lj' \<in> set (lessons_of mj')"
      and e: "exec (save_lesson now (mj_id mj') lj') x = Inr x'"
      and g: "\<forall>row. db_lessons x L = Some row \<longrightarrow> lr_module_id row = M"
    from e have sl: "save_lesson now (mj_id mj') lj' x = Inr x'" by (simp add: exec_Inr_iff)
    show "\<forall>row. db_lessons x' L = Some row \<longrightarrow> lr_module_id row = M"
    proof (cases "lj_id lj' = Some L")
      case False
      from save_lesson_keeps_other_lesson[OF sl False] g show ?thesis by simp
    next
      case True
      with u lj' have mv: "mj_id mj' = Some M" by blast
      from sl mv have "save_lesson now (Some M) lj' x = Inr x'" by simp
      from save_lesson_stores[OF this] g True
      have "lesson_stored M lj' x'" by auto
      with True show ?thesis by (auto simp: lesson_stored_def)
    qed
  qed (rule p1)
  then show ?thesis
    unfolding 3 by (auto simp: db_lessons_delete_lessons split: option.splits if_splits)
qed

lemma save_module_stores_lesson:
  assumes s: "save_module now cv mj d = Inr d'"
    and p: "\<forall>row. db_lessons d L = Some row \<longrightarrow> lr_module_id row = M"
    and lj: "lj \<in> set (lessons_of mj)" and M: "mj_id mj = Some M" and L: "lj_id lj = Some L"
    and u: "\<forall>lj'\<in>set (lessons_of mj). lj_id lj' = Some L \<longrightarrow> lj' = lj"
  shows "lesson_stored M lj d'"
proof -
  from save_module_Inr[OF s] obtain d1 d2 where
    1: "save_module_row now cv mj d = Inr d1"
    and 2: "for_loop (\<lambda>lj. exec (save_lesson now (mj_id mj) lj)) (lessons_of mj) d1 = Inr d2"
    and 3: "d' = delete_lessons (\<lambda>k row. Some (lr_module_id row) = mj_id mj \<and>
                             Some k \<notin> set (map lj_id (lessons_of mj))) d2"
    by blast
  let ?P = "\<lambda>x. \<forall>row. db_lessons x L = Some row \<longrightarrow> lr_module_id row = M"
  from save_module_row_Inr[OF 1] have "db_lessons d1 = db_lessons d" by auto
  with p have p1: "?P d1" by simp
  have "?P d2 \<and> lesson_stored M lj d2"
  proof (rule for_loop_invariant2[OF 2, of ?P "lesson_stored M lj" "\<lambda>x. x = lj"])
    fix lj' x x'
    assume lj': "lj' \<in> set (lessons_of mj)"
      and e: "exec (save_lesson now (mj_id mj) lj') x = Inr x'"
      and g: "?P x"
    from e M have sl: "save_lesson now (Some M) lj' x = Inr x'" by (simp add: exec_Inr_iff)
    show "?P x'"
    proof (cases "lj_id lj' = Some L")
      case False
      from save_lesson_keeps_other_lesson[OF sl False] g show ?thesis by simp
    next
      case True
      from save_lesson_stores[OF sl] g True have "lesson_stored M lj' x'" by auto
      with True show ?thesis by (auto simp: lesson_stored_def)
    qed
    assume h: "lesson_stored M lj x \<or> lj' = lj"
    show "lesson_stored M lj x'"
    proof (cases "lj' = lj")
      case True
      with save_lesson_stores[OF sl] g L show ?thesis by auto
    next
      case False
      with u lj' have ne: "lj_id lj' \<noteq> Some L" by blast
      from False h have "lesson_stored M lj x" by simp
      with lesson_stored_cong[OF L save_lesson_keeps_other_lesson[OF sl ne]]
      show ?thesis by simp
    qed
  next
    show "?P d1" by (rule p1)
    show "lesson_stored M lj d1 \<or> (\<exists>x\<in>set (lessons_of mj). x = lj)" using lj by simp
  qed
  then have st: "lesson_stored M lj d2" ..
  have "Some L \<in> set (map lj_id (lessons_of mj))" using lj L by force
  then have "db_lessons d' L = db_lessons d2 L"
    unfolding 3 by (simp add: db_lessons_delete_lessons split: option.splits)
  from lesson_stored_cong[OF L this] st show ?thesis by simp
qed

lemma save_module_keeps_stored_lesson:
  assumes s: "save_module now cv mj' d = Inr d'"
    and st: "lesson_stored M lj d" and L: "lj_id lj = Some L"
    and u: "\<forall>lj'\<in>set (lessons_of mj'). lj_id lj' \<noteq> Some L"
    and m: "mj_id mj' \<noteq> Some M"
  shows "lesson_stored M lj d'"
proof -
  from save_module_Inr[OF s] obtain d1 d2 where
    1: "save_module_row now cv mj' d = Inr d1"
    and 2: "for_loop (\<lambda>lj. exec (save_lesson now (mj_id mj') lj)) (lessons_of mj') d1 = Inr d2"
    and 3: "d' = delete_lessons (\<lambda>k row. Some (lr_module_id row) = mj_id mj' \<and>
                             Some k \<notin> set (map lj_id (lessons_of mj'))) d2"
    by blast
  from save_module_row_Inr[OF 1] have "db_lessons d1 = db_lessons d" by auto
  with st have st1: "lesson_stored M lj d1" by (simp add: lesson_stored_def)
  have st2: "lesson_stored M lj d2"
  proof (rule for_loop_preserves[OF 2, of "lesson_stored M lj"])
    fix lj' x x'
    assume lj': "lj' \<in> set (lessons_of mj')"
      and e: "exec (save_lesson now (mj_id mj') lj') x = Inr x'"
      and g: "lesson_stored M lj x"
    from e have sl: "save_lesson now (mj_id mj') lj' x = Inr x'" by (simp add: exec_Inr_iff)
    from u lj' have ne: "lj_id lj' \<noteq> Some L" by blast
    from lesson_stored_cong[OF L save_lesson_keeps_other_lesson[OF sl ne]] g
    show "lesson_stored M lj x'" by simp
  qed (rule st1)
  then obtain row where "db_lessons d2 L = Some row" "lr_module_id row = M"
    using L by (auto simp: lesson_stored_def)
  with m have "db_lessons d' L = db_lessons d2 L"
    unfolding 3 by (auto simp: db_lessons_delete_lessons)
  from lesson_stored_cong[OF L this] st2 show ?thesis by simp
qed

lemma save_module_stores_module:
  assumes s: "save_module now cv mj d = Inr d'"
  shows "module_stored mj d'"
proof -
  from save_module_Inr[OF s] obtain d1 d2 where
    1: "save_module_row now cv mj d = Inr d1"
    and 2: "for_loop (\<lambda>lj. exec (save_lesson now (mj_id mj) lj)) (lessons_of mj) d1 = Inr d2"
    and 3: "d' = delete_lessons (\<lambda>k row. Some (lr_module_id row) = mj_id mj \<and>
                             Some k \<notin> set (map lj_id (lessons_of mj))) d2"
    by blast
  have "db_modules d' = db_modules d1"
    using lesson_loop_keeps_modules[OF 2] 3 by (simp add: delete_lessons_other_tables)
  with save_module_row_stores[OF 1] show ?thesis by (simp add: module_stored_def)
qed

lemma save_module_keeps_courses:
  assumes s: "save_module now cv mj d = Inr d'"
  shows "db_courses d' = db_courses d"
proof -
  from save_module_Inr[OF s] obtain d1 d2 where
    1: "save_module_row now cv mj d = Inr d1"
    and 2: "for_loop (\<lambda>lj. exec (save_lesson now (mj_id mj) lj)) (lessons_of mj) d1 = Inr d2"
    and 3: "d' = delete_lessons (\<lambda>k row. Some (lr_module_id row) = mj_id mj \<and>
                             Some k \<notin> set (map lj_id (lessons_of mj))) d2"
    by blast
  from save_module_row_Inr[OF 1] have c1: "db_courses d1 = db_courses d" by auto
  have "db_courses d2 = db_courses d1"
  proof (rule for_loop_preserves[OF 2, of "\<lambda>x. db_courses x = db_courses d1"])
    fix lj x x'
    assume "exec (save_lesson now (mj_id mj) lj) x = Inr x'" "db_courses x = db_courses d1"
    then show "db_courses x' = db_courses d1"
      by (auto simp: exec_Inr_iff dest!: save_lesson_Inr)
  qed simp
  with c1 3 show ?thesis by (simp add: delete_lessons_other_tables)
qed

lemma save_module_identity:
  assumes first: "save_module now cv mj d0 = Inr d0'"
    and M: "mj_id mj = Some M"
    and ms: "module_stored mj d"
    and ls: "\<forall>lj\<in>set (lessons_of mj). lesson_stored M lj d"
    and own: "\<forall>l lrow. db_lessons d l = Some lrow \<and> lr_module_id lrow = M \<longrightarrow>
                Some l \<in> set (map lj_id (lessons_of mj))"
  shows "save_module now' cv mj d = Inr d"
proof -
  from first obtain d1 ls0 d2 where
    1: "save_module_row now cv mj d0 = Inr d1"
    and 2: "jsonb_array_elements (mj_lessons mj) = Inr ls0"
    and 3: "for_loop (\<lambda>lj. exec (save_lesson now (mj_id mj) lj)) ls0 d1 = Inr d2"
    by (auto simp: save_module_def Let_def seq_Inr_iff exec_Inr_iff)
  have ls0: "ls0 = lessons_of mj" using 2 by (rule jsonb_array_elements_lessons)
  have a: "save_module_row now' cv mj d = Inr d"
    using save_module_row_identity[OF 1 ms] .
  have "\<forall>lj\<in>set ls0. \<exists>x x'. save_lesson now (mj_id mj) lj x = Inr x'"
    using for_loop_all[OF 3, of "\<lambda>lj. \<exists>x x'. save_lesson now (mj_id mj) lj x = Inr x'"]
    by (auto simp: exec_Inr_iff)
  then have b: "for_loop (\<lambda>lj. exec (save_lesson now' (mj_id mj) lj)) (lessons_of mj) d = Inr d"
    using ls ls0 M
    by (intro for_loop_identity) (auto simp: exec_Inr_iff intro: save_lesson_identity)
  have "delete_lessons
          (\<lambda>k row. is_true (sql_and (sql_eq (Some (lr_module_id row)) (mj_id mj))
                                    (sql_not_in (Some k) (map lj_id (lessons_of mj))))) d = d"
    using own M by (intro delete_lessons_identity) (auto simp: not_in_cond)
  then have c: "delete_lessons_not_in (mj_id mj) (mj_lessons mj) d = Inr d"
    using 2 ls0 by (simp add: delete_lessons_not_in_def seq_def)
  show ?thesis
    using a b c 2 ls0 by (simp add: save_module_def Let_def seq_def exec_def)
qed

lemma save_course_with_children_identity:
  assumes first: "save_course_with_children auth_uid now T d0 = Inr d0'"
    and cs: "course_stored T d"
    and ms: "\<forall>mj\<in>set (modules_of T). module_stored mj d"
    and ls: "\<forall>mj\<in>set (modules_of T). \<forall>lj\<in>set (lessons_of mj).
               \<exists>M. mj_id mj = Some M \<and> lesson_stored M lj d"
    and listed: "\<forall>m row. db_modules d m = Some row \<and> Some (mr_course_id row) = cj_id T \<longrightarrow>
                   Some m \<in> set (map mj_id (modules_of T))"
    and own: "\<forall>mj\<in>set (modules_of T). \<forall>l lrow.
                db_lessons d l = Some lrow \<and> Some (lr_module_id lrow) = mj_id mj \<longrightarrow>
                  Some l \<in> set (map lj_id (lessons_of mj))"
  shows "save_course_with_children auth_uid now' T d = Inr d"
proof -
  from first have auth: "\<not> is_true (sql_or (sql_is_null (cj_teacher_id T))
      (sql_ne (cj_teacher_id T) auth_uid))"
    by (auto simp: save_course_with_children_def Let_def split: if_splits)
  have tid: "cj_teacher_id T \<noteq> None"
  proof
    assume "cj_teacher_id T = None"
    then have "is_true (sql_or (sql_is_null (cj_teacher_id T)) (sql_ne (cj_teacher_id T) auth_uid))"
      by (simp add: is_true_def sql_or_def sql_is_null_def)
    with auth show False by simp
  qed
  from first auth obtain d1 ms0 d2 where
    2: "jsonb_array_elements (cj_modules T) = Inr ms0"
    and 3: "for_loop (save_module now (cj_id T)) ms0 d1 = Inr d2"
    by (auto simp: save_course_with_children_def Let_def seq_Inr_iff exec_Inr_iff)
  have ms0: "ms0 = modules_of T" using 2 by (rule jsonb_array_elements_modules)
  have a: "upsert_course now' (cj_id T) (cj_title T) (cj_description T) (cj_category T)
      (nullif (cj_image_url T) ''null'') (cj_is_published T) (cj_teacher_id T) d = Inr d"
    using upsert_course_stored_identity[OF cs tid] .
  have f: "\<forall>mj\<in>set ms0. \<exists>x x'. save_module now (cj_id T) mj x = Inr x'"
    using for_loop_all[OF 3, of "\<lambda>mj. \<exists>x x'. save_module now (cj_id T) mj x = Inr x'"]
    by auto
  have b: "for_loop (save_module now' (cj_id T)) (modules_of T) d = Inr d"
  proof (rule for_loop_identity)
    fix mj
    assume mj: "mj \<in> set (modules_of T)"
    with f ms0 obtain x x' where x: "save_module now (cj_id T) mj x = Inr x'" by blast
    from save_module_Inr[OF x] save_module_row_Inr obtain M where M: "mj_id mj = Some M"
      by blast
    have l: "\<forall>lj\<in>set (lessons_of mj). lesson_stored M lj d"
      using ls mj M by fastforce
    have o: "\<forall>l lrow. db_lessons d l = Some lrow \<and> lr_module_id lrow = M \<longrightarrow>
                Some l \<in> set (map lj_id (lessons_of mj))"
      using own mj M by auto
    from save_module_identity[OF x M _ l o] ms mj
    show "save_module now' (cj_id T) mj d = Inr d" by blast
  qed
  have "delete_modules
          (\<lambda>k row. is_true (sql_and (sql_eq (Some (mr_course_id row)) (cj_id T))
                                    (sql_not_in (Some k) (map mj_id (modules_of T))))) d = d"
    using listed by (intro delete_modules_identity) (auto simp: not_in_cond)
  then have c: "delete_modules_not_in (cj_id T) (cj_modules T) d = Inr d"
    using 2 ms0 by (simp add: delete_modules_not_in_def seq_def)
  show ?thesis
    using auth a b c 2 ms0
    by (simp add: save_course_with_children_def Let_def seq_def exec_def)
qed

lemma save_stores_tree:
  assumes s: "save_course_with_children auth_uid now T db = Inr db'"
    and dm: "distinct (map mj_id (modules_of T))"
    and dl: "distinct (map lj_id (all_lessons T))"
    and par: "\<forall>mj\<in>set (modules_of T). \<forall>lj\<in>set (lessons_of mj). \<forall>l row.
                lj_id lj = Some l \<and> db_lessons db l = Some row \<longrightarrow>
                  Some (lr_module_id row) = mj_id mj"
  shows "course_stored T db'"
    and "\<forall>mj\<in>set (modules_of T). module_stored mj db'"
    and "\<forall>mj\<in>set (modules_of T). \<forall>lj\<in>set (lessons_of mj).
           \<exists>M. mj_id mj = Some M \<and> lesson_stored M lj db'"
proof -
  from save_course_with_children_Inr[OF s] obtain db1 db2 where
    1: "upsert_course now (cj_id T) (cj_title T) (cj_description T) (cj_category T)
      (nullif (cj_image_url T) ''null'') (cj_is_published T) (cj_teacher_id T) db = Inr db1"
    and 2: "for_loop (save_module now (cj_id T)) (modules_of T) db1 = Inr db2"
    and n: "None \<notin> set (map mj_id (modules_of T))"
    and 3: "db' = delete_modules (\<lambda>k row. Some (mr_course_id row) = cj_id T \<and>
                             Some k \<notin> set (map mj_id (modules_of T))) db2"
    by blast
  have l1: "db_lessons db1 = db_lessons db"
    using upsert_course_Inr[OF 1] by auto
  have dms: "distinct (modules_of T)" using dm by (simp add: distinct_map)
  have dl': "distinct (map lj_id (concat (map lessons_of (modules_of T))))"
    using dl by (simp add: all_lessons_def)
  have "db_courses db2 = db_courses db1"
  proof (rule for_loop_preserves[OF 2, of "\<lambda>x. db_courses x = db_courses db1"])
    fix mj x x'
    assume "save_module now (cj_id T) mj x = Inr x'" "db_courses x = db_courses db1"
    then show "db_courses x' = db_courses db1" using save_module_keeps_courses by simp
  qed simp
  then have "db_courses db' = db_courses db1"
    using 3 by (simp add: delete_modules_other_tables)
  with upsert_course_stores[OF 1] show "course_stored T db'"
    by (simp add: course_stored_def)
  show "\<forall>mj\<in>set (modules_of T). module_stored mj db'"
  proof
    fix mj
    assume mj: "mj \<in> set (modules_of T)"
    with n obtain M where M: "mj_id mj = Some M" by (cases "mj_id mj") force+
    have st2: "module_stored mj db2"
    proof (rule for_loop_invariant[OF 2, of "module_stored mj" "\<lambda>x. x = mj"])
      fix x d d'
      assume x: "x \<in> set (modules_of T)" and sm: "save_module now (cj_id T) x d = Inr d'"
        and h: "module_stored mj d \<or> x = mj"
      show "module_stored mj d'"
      proof (cases "x = mj")
        case True
        with save_module_stores_module[OF sm] show ?thesis by simp
      next
        case False
        with dm x mj have "mj_id x \<noteq> mj_id mj" by (metis distinct_map inj_on_eq_iff)
        with M have "mj_id x \<noteq> Some M" by simp
        from module_stored_cong[OF M save_module_keeps_other_module[OF sm this]] h False
        show ?thesis by simp
      qed
    qed (use mj in simp)
    have "Some M \<in> set (map mj_id (modules_of T))" using mj M by force
    then have e: "db_modules db' M = db_modules db2 M"
      unfolding 3 by (simp add: db_modules_delete_modules split: option.splits)
    from module_stored_cong[OF M e] st2 show "module_stored mj db'" by simp
  qed
  show "\<forall>mj\<in>set (modules_of T). \<forall>lj\<in>set (lessons_of mj).
           \<exists>M. mj_id mj = Some M \<and> lesson_stored M lj db'"
  proof (intro ballI)
    fix mj lj
    assume mj: "mj \<in> set (modules_of T)" and lj: "lj \<in> set (lessons_of mj)"
    from mj n obtain M where M: "mj_id mj = Some M" by (cases "mj_id mj") force+
    have "\<forall>x\<in>set (modules_of T). None \<notin> set (map lj_id (lessons_of x))"
      using for_loop_all[OF 2, of "\<lambda>x. None \<notin> set (map lj_id (lessons_of x))"]
        save_module_Inr by blast
    with mj lj obtain L where L: "lj_id lj = Some L" by (cases "lj_id lj") force+
    have same_lj: "\<And>x lj'. x \<in> set (modules_of T) \<Longrightarrow> lj' \<in> set (lessons_of x) \<Longrightarrow>
        lj_id lj' = Some L \<Longrightarrow> lj' = lj \<and> x = mj"
    proof -
      fix x lj'
      assume x: "x \<in> set (modules_of T)" and l': "lj' \<in> set (lessons_of x)"
        and i: "lj_id lj' = Some L"
      from distinct_concat_disjoint[OF dl' x mj l' lj] i L have e: "lj' = lj" by simp
      with l' have "lj \<in> set (lessons_of x)" by simp
      from distinct_concat_same_part[OF dl' dms x mj this lj] e
      show "lj' = lj \<and> x = mj" by simp
    qed
    let ?P = "\<lambda>d. \<forall>row. db_lessons d L = Some row \<longrightarrow> lr_module_id row = M"
    have p1: "?P db1" using par mj lj L M l1 by fastforce
    have "?P db2 \<and> lesson_stored M lj db2"
    proof (rule for_loop_invariant2[OF 2, of ?P "lesson_stored M lj" "\<lambda>x. x = mj"])
      fix x d d'
      assume x: "x \<in> set (modules_of T)" and sm: "save_module now (cj_id T) x d = Inr d'"
        and p: "?P d"
      have u: "\<forall>lj'\<in>set (lessons_of x). lj_id lj' = Some L \<longrightarrow> mj_id x = Some M"
        using same_lj[OF x] M by blast
      from save_module_keeps_parent[OF sm p u] show "?P d'" .
      assume h: "lesson_stored M lj d \<or> x = mj"
      show "lesson_stored M lj d'"
      proof (cases "x = mj")
        case True
        have "\<forall>lj'\<in>set (lessons_of mj). lj_id lj' = Some L \<longrightarrow> lj' = lj"
          using same_lj[OF mj] by blast
        from save_module_stores_lesson[OF sm[unfolded True] p lj M L this]
        show ?thesis .
      next
        case False
        with h have st: "lesson_stored M lj d" by simp
        have u': "\<forall>lj'\<in>set (lessons_of x). lj_id lj' \<noteq> Some L"
          using same_lj[OF x] False by blast
        from dm x mj False have "mj_id x \<noteq> mj_id mj" by (metis distinct_map inj_on_eq_iff)
        with M have "mj_id x \<noteq> Some M" by simp
        from save_module_keeps_stored_lesson[OF sm st L u' this] show ?thesis .
      qed
    next
      show "?P db1" by (rule p1)
      show "lesson_stored M lj db1 \<or> (\<exists>x\<in>set (modules_of T). x = mj)" using mj by simp
    qed
    then have st: "lesson_stored M lj db2" ..
    then obtain row where row: "db_lessons db2 L = Some row" "lr_module_id row = M"
      using L by (auto simp: lesson_stored_def)
    have "Some M \<in> set (map mj_id (modules_of T))" using mj M by force
    with row have "db_lessons db' L = db_lessons db2 L"
      unfolding 3 by (auto simp: db_lessons_delete_modules split: option.splits)
    from lesson_stored_cong[OF L this] st M
    show "\<exists>M. mj_id mj = Some M \<and> lesson_stored M lj db'" by simp
  qed
qed

text \<open>
  When the payload lists every module id and every lesson id once, and every listed
  lesson that is already stored is stored under the module that the payload lists it
  under, a successful save is stable: a second call with the same payload, at any
  time, succeeds and leaves every table as the first call left it.
\<close>

theorem save_twice_same_when_no_lesson_moves:
  assumes first: "rpc_save_course_with_children auth_uid now T db = (None, db')"
    and dm: "distinct (map mj_id (modules_of T))"
    and dl: "distinct (map lj_id (all_lessons T))"
    and par: "\<forall>mj\<in>set (modules_of T). \<forall>lj\<in>set (lessons_of mj). \<forall>l row.
                lj_id lj = Some l \<and> db_lessons db l = Some row \<longrightarrow>
                  Some (lr_module_id row) = mj_id mj"
  shows "rpc_save_course_with_children auth_uid now' T db' = (None, db')"
proof -
  from first have s: "save_course_with_children auth_uid now T db = Inr db'"
    by (simp add: rpc_save_course_with_children_def rpc_None_iff)
  have listed: "\<forall>m row. db_modules db' m = Some row \<and> Some (mr_course_id row) = cj_id T \<longrightarrow>
                   Some m \<in> set (map mj_id (modules_of T))"
    using save_keeps_listed_modules_only[OF s] by blast
  have own: "\<forall>mj\<in>set (modules_of T). \<forall>l lrow.
                db_lessons db' l = Some lrow \<and> Some (lr_module_id lrow) = mj_id mj \<longrightarrow>
                  Some l \<in> set (map lj_id (lessons_of mj))"
    using save_keeps_own_lessons_only[OF s dm] by blast
  from save_course_with_children_identity[OF s save_stores_tree[OF s dm dl par] listed own]
  show ?thesis
    by (simp add: rpc_save_course_with_children_def rpc_None_iff)
qed

theorem save_twice_same_when_no_lesson_moves_witness:
  "fst (rpc_save_course_with_children (Some ''t1'') 10 demo_tree demo_db) = None \<and>
   distinct (map mj_id (modules_of demo_tree)) \<and>
   distinct (map lj_id (all_lessons demo_tree)) \<and>
   map_option lr_module_id (db_lessons demo_db ''l1'') = Some ''m1'' \<and>
   db_lessons demo_db ''l2'' = None \<and>
   rpc_save_course_with_children (Some ''t1'') 11 demo_tree
       (snd (rpc_save_course_with_children (Some ''t1'') 10 demo_tree demo_db)) =
     (None, snd (rpc_save_course_with_children (Some ''t1'') 10 demo_tree demo_db))"
proof -
  let ?r = "rpc_save_course_with_children (Some ''t1'') 10 demo_tree demo_db"
  have f: "fst ?r = None" by code_simp
  then have ok: "?r = (None, snd ?r)" by (simp add: prod_eq_iff)
  have dm: "distinct (map mj_id (modules_of demo_tree))"
    by (simp add: modules_of_def demo_tree_def)
  have dl: "distinct (map lj_id (all_lessons demo_tree))"
    by (simp add: all_lessons_def modules_of_def lessons_of_def demo_tree_def)
  have l1: "map_option lr_module_id (db_lessons demo_db ''l1'') = Some ''m1''"
    and l2: "db_lessons demo_db ''l2'' = None"
    by (simp_all add: demo_db_def)
  have par: "\<forall>mj\<in>set (modules_of demo_tree). \<forall>lj\<in>set (lessons_of mj). \<forall>l row.
               lj_id lj = Some l \<and> db_lessons demo_db l = Some row \<longrightarrow>
                 Some (lr_module_id row) = mj_id mj"
    by (auto simp: modules_of_def lessons_of_def demo_tree_def demo_db_def split: if_splits)
  from save_twice_same_when_no_lesson_moves[OF ok dm dl par, of 11] f dm dl l1 l2
  show ?thesis by simp
qed
section \<open>Results: lesson completion\<close>

lemma progress_key_filter_map:
  "filter (\<lambda>row. pr_student_id row = S \<and> pr_lesson_id row = L)
     (map (\<lambda>row. if pr_student_id row = S \<and> pr_lesson_id row = L
                  then row\<lparr>pr_is_completed := c, pr_updated_at := t\<rparr> else row) rows)
   = map (\<lambda>row. row\<lparr>pr_is_completed := c, pr_updated_at := t\<rparr>)
       (filter (\<lambda>row. pr_student_id row = S \<and> pr_lesson_id row = L) rows)"
  by (induction rows) auto

lemma progress_keys_map:
  "map (\<lambda>row. (pr_student_id row, pr_lesson_id row))
     (map (\<lambda>row. if pr_student_id row = S \<and> pr_lesson_id row = L
                  then row\<lparr>pr_is_completed := c, pr_updated_at := t\<rparr> else row) rows)
   = map (\<lambda>row. (pr_student_id row, pr_lesson_id row)) rows"
  by (induction rows) auto

lemma distinct_key_filter_le_1:
  "distinct (map key rows) \<Longrightarrow> length (filter (\<lambda>row. key row = k) rows) \<le> 1"
proof (induction rows)
  case Nil
  then show ?case by simp
next
  case (Cons r rows)
  show ?case
  proof (cases "key r = k")
    case True
    from Cons.prems have nk: "key r \<notin> key ` set rows" by simp
    have "\<forall>x\<in>set rows. key x \<noteq> k"
    proof
      fix x
      assume "x \<in> set rows"
      then have "key x \<in> key ` set rows" by (rule imageI)
      with nk True show "key x \<noteq> k" by auto
    qed
    then have "filter (\<lambda>row. key row = k) rows = []"
      by (simp add: filter_empty_conv)
    with True show ?thesis by simp
  next
    case False
    with Cons show ?thesis by simp
  qed
qed

lemma find_Some_filter: "find P rows = Some r \<Longrightarrow> filter P rows \<noteq> []"
  by (induction rows) (auto split: if_splits)

lemma find_None_filter: "find P rows = None \<Longrightarrow> filter P rows = []"
  by (induction rows) (auto split: if_splits)

lemma find_snoc: "find P rows = None \<Longrightarrow> find P (rows @ [r]) = (if P r then Some r else None)"
  by (induction rows) (auto split: if_splits)

lemma progress_update_twice:
  "map (\<lambda>row. if pr_student_id row = S \<and> pr_lesson_id row = L
               then row\<lparr>pr_is_completed := True, pr_updated_at := t2\<rparr> else row)
     (map (\<lambda>row. if pr_student_id row = S \<and> pr_lesson_id row = L
                  then row\<lparr>pr_is_completed := True, pr_updated_at := t1\<rparr> else row) rows)
   = map (\<lambda>row. if pr_student_id row = S \<and> pr_lesson_id row = L
               then row\<lparr>pr_is_completed := True, pr_updated_at := t2\<rparr> else row) rows"
  by (induction rows) auto

text \<open>
  The state of the \<^verbatim>\<open>progress\<close> table after one completion of lesson \<open>L\<close> by
  student \<open>S\<close>, when the write is admitted: the student has a session and a profile,
  the lesson exists, and the id drawn for a new row is not in use.
\<close>

lemma upsert_progress_once:
  assumes u: "progress_unique db" and p: "S \<in> db_profiles db"
    and l: "db_lessons db L \<noteq> None" and f: "id1 \<notin> pr_id ` set (db_progress db)"
  shows "\<exists>db1. upsert_progress (Some S) id1 S L True t1 db = Inr db1 \<and>
     progress_unique db1 \<and>
     db1\<lparr>db_progress := db_progress db\<rparr> = db \<and>
     length (filter (\<lambda>row. pr_student_id row = S \<and> pr_lesson_id row = L) (db_progress db1)) = 1 \<and>
     list_all pr_is_completed
       (filter (\<lambda>row. pr_student_id row = S \<and> pr_lesson_id row = L) (db_progress db1)) \<and>
     find (\<lambda>row. pr_student_id row = S \<and> pr_lesson_id row = L) (db_progress db1) \<noteq> None"
proof (cases "find (\<lambda>row. pr_student_id row = S \<and> pr_lesson_id row = L) (db_progress db)")
  case None
  let ?new = "\<lparr>pr_id = id1, pr_student_id = S, pr_lesson_id = L,
                pr_is_completed = True, pr_updated_at = t1\<rparr>"
  let ?db1 = "db\<lparr>db_progress := db_progress db @ [?new]\<rparr>"
  have r: "upsert_progress (Some S) id1 S L True t1 db = Inr ?db1"
    using None p l f by (simp add: upsert_progress_def is_true_def sql_eq_def)
  have e: "filter (\<lambda>row. pr_student_id row = S \<and> pr_lesson_id row = L) (db_progress db) = []"
    using find_None_filter[OF None] .
  then have nk: "(S, L) \<notin> set (map (\<lambda>row. (pr_student_id row, pr_lesson_id row)) (db_progress db))"
    by (auto simp: filter_empty_conv)
  have "progress_unique ?db1"
    using u nk by (simp add: progress_unique_def)
  then show ?thesis using r e find_snoc[OF None, of ?new] by (intro exI[of _ ?db1]) simp
next
  case (Some old)
  let ?upd = "\<lambda>row. if pr_student_id row = S \<and> pr_lesson_id row = L
                     then row\<lparr>pr_is_completed := True, pr_updated_at := t1\<rparr> else row"
  let ?db1 = "db\<lparr>db_progress := map ?upd (db_progress db)\<rparr>"
  let ?P = "\<lambda>row. pr_student_id row = S \<and> pr_lesson_id row = L"
  have r: "upsert_progress (Some S) id1 S L True t1 db = Inr ?db1"
    using Some by (simp add: upsert_progress_def is_true_def sql_eq_def)
  have ne: "filter ?P (db_progress db) \<noteq> []" using find_Some_filter[OF Some] .
  have le: "length (filter ?P (db_progress db)) \<le> 1"
    using u distinct_key_filter_le_1[of "\<lambda>row. (pr_student_id row, pr_lesson_id row)"
        "db_progress db" "(S, L)"]
    by (simp add: progress_unique_def)
  with ne have one: "length (filter ?P (db_progress db)) = 1"
    by (cases "filter ?P (db_progress db)") simp_all
  have fm: "filter ?P (map ?upd (db_progress db))
      = map (\<lambda>row. row\<lparr>pr_is_completed := True, pr_updated_at := t1\<rparr>) (filter ?P (db_progress db))"
    by (rule progress_key_filter_map)
  have un: "progress_unique ?db1"
    using u by (simp del: map_map add: progress_unique_def progress_keys_map)
  have fd: "find ?P (map ?upd (db_progress db)) \<noteq> None"
  proof
    assume "find ?P (map ?upd (db_progress db)) = None"
    from find_None_filter[OF this] fm ne show False by simp
  qed
  show ?thesis using r un one fm fd
    by (intro exI[of _ ?db1]) (simp add: list_all_iff)
qed

text \<open>
  Claim C9. Completing lesson \<open>L\<close> for student \<open>S\<close> twice: both writes succeed, and
  afterwards the table holds exactly one row for \<open>(S, L)\<close>, with
  \<^verbatim>\<open>is_completed = true\<close>. The state after the second write is the state after the
  first one but for the \<^verbatim>\<open>updated_at\<close> of that row, which is the time of the second
  write; with the same time the two states are equal.
\<close>

theorem upsert_progress_twice:
  assumes u: "progress_unique db" and p: "S \<in> db_profiles db"
    and l: "db_lessons db L \<noteq> None" and f: "id1 \<notin> pr_id ` set (db_progress db)"
  shows "\<exists>db1 db2.
     upsert_progress (Some S) id1 S L True t1 db = Inr db1 \<and>
     upsert_progress (Some S) id2 S L True t2 db1 = Inr db2 \<and>
     length (filter (\<lambda>row. pr_student_id row = S \<and> pr_lesson_id row = L) (db_progress db2)) = 1 \<and>
     list_all pr_is_completed
       (filter (\<lambda>row. pr_student_id row = S \<and> pr_lesson_id row = L) (db_progress db2)) \<and>
     length (filter (\<lambda>row. pr_student_id row = S \<and> pr_lesson_id row = L) (db_progress db1)) = 1 \<and>
     list_all pr_is_completed
       (filter (\<lambda>row. pr_student_id row = S \<and> pr_lesson_id row = L) (db_progress db1)) \<and>
     db2 = db1\<lparr>db_progress :=
             map (\<lambda>row. if pr_student_id row = S \<and> pr_lesson_id row = L
                         then row\<lparr>pr_updated_at := t2\<rparr> else row) (db_progress db1)\<rparr> \<and>
     progress_unique db2"
proof -
  let ?P = "\<lambda>row. pr_student_id row = S \<and> pr_lesson_id row = L"
  from upsert_progress_once[OF u p l f, of t1] obtain db1 where
    1: "upsert_progress (Some S) id1 S L True t1 db = Inr db1"
    and u1: "progress_unique db1"
    and one: "length (filter ?P (db_progress db1)) = 1"
    and c1: "list_all pr_is_completed (filter ?P (db_progress db1))"
    and fd: "find ?P (db_progress db1) \<noteq> None"
    by blast
  let ?upd = "\<lambda>row. if ?P row then row\<lparr>pr_is_completed := True, pr_updated_at := t2\<rparr> else row"
  let ?db2 = "db1\<lparr>db_progress := map ?upd (db_progress db1)\<rparr>"
  have 2: "upsert_progress (Some S) id2 S L True t2 db1 = Inr ?db2"
    using fd by (auto simp: upsert_progress_def is_true_def sql_eq_def)
  have fm: "filter ?P (map ?upd (db_progress db1))
      = map (\<lambda>row. row\<lparr>pr_is_completed := True, pr_updated_at := t2\<rparr>) (filter ?P (db_progress db1))"
    by (rule progress_key_filter_map)
  have comp: "\<forall>row\<in>set (db_progress db1). ?P row \<longrightarrow> pr_is_completed row"
    using c1 by (auto simp: list_all_iff)
  have same: "map ?upd (db_progress db1)
      = map (\<lambda>row. if ?P row then row\<lparr>pr_updated_at := t2\<rparr> else row) (db_progress db1)"
    using comp by (intro map_cong[OF refl]) auto
  have u2: "progress_unique ?db2"
    using u1 by (simp del: map_map add: progress_unique_def progress_keys_map)
  have one2: "length (filter ?P (db_progress ?db2)) = 1"
    using one fm by simp
  have c2: "list_all pr_is_completed (filter ?P (db_progress ?db2))"
    using fm by (simp add: list_all_iff)
  have eq: "?db2 = db1\<lparr>db_progress :=
             map (\<lambda>row. if ?P row then row\<lparr>pr_updated_at := t2\<rparr> else row) (db_progress db1)\<rparr>"
    using same by simp
  from 1 2 one2 c2 one c1 eq u2 show ?thesis
    by (intro exI[of _ db1] exI[of _ ?db2] conjI)
qed

theorem upsert_progress_twice_witness:
  "progress_unique demo_db \<and> ''t2'' \<in> db_profiles demo_db \<and>
   db_lessons demo_db ''l1'' \<noteq> None \<and> ''p2'' \<notin> pr_id ` set (db_progress demo_db) \<and>
   (\<exists>db1 db2.
     upsert_progress (Some ''t2'') ''p2'' ''t2'' ''l1'' True 20 demo_db = Inr db1 \<and>
     upsert_progress (Some ''t2'') ''p3'' ''t2'' ''l1'' True 30 db1 = Inr db2 \<and>
     length (filter (\<lambda>row. pr_student_id row = ''t2'' \<and> pr_lesson_id row = ''l1'')
               (db_progress db2)) = 1 \<and>
     list_all pr_is_completed
       (filter (\<lambda>row. pr_student_id row = ''t2'' \<and> pr_lesson_id row = ''l1'')
          (db_progress db2)))"
proof -
  have u: "progress_unique demo_db" by (simp add: progress_unique_def demo_db_def)
  have p: "''t2'' \<in> db_profiles demo_db" by (simp add: demo_db_def)
  have l: "db_lessons demo_db ''l1'' \<noteq> None" by (simp add: demo_db_def)
  have f: "''p2'' \<notin> pr_id ` set (db_progress demo_db)" by (simp add: demo_db_def)
  from upsert_progress_twice[OF u p l f, of 20 "''p3''" 30] u p l f
  show ?thesis by blast
qed

text \<open>
  The two states are not the same when the two writes happen at different times, as
  the handler's \<^verbatim>\<open>updated_at: new Date().toISOString()\<close> makes them: on the example
  database the row of student \<open>t2\<close> for lesson \<open>l1\<close> carries time 20 after the first
  write and time 30 after the second.
\<close>

theorem upsert_progress_twice_not_same_state:
  "(case upsert_progress (Some ''t2'') ''p2'' ''t2'' ''l1'' True 20 demo_db of
      Inl e \<Rightarrow> False
    | Inr db1 \<Rightarrow>
        (case upsert_progress (Some ''t2'') ''p3'' ''t2'' ''l1'' True 30 db1 of
           Inl e \<Rightarrow> False
         | Inr db2 \<Rightarrow>
             db2 \<noteq> db1 \<and>
             map pr_updated_at
               (filter (\<lambda>row. pr_student_id row = ''t2'' \<and> pr_lesson_id row = ''l1'')
                  (db_progress db1)) = [20] \<and>
             map pr_updated_at
               (filter (\<lambda>row. pr_student_id row = ''t2'' \<and> pr_lesson_id row = ''l1'')
                  (db_progress db2)) = [30]))"
proof -
  have "(case upsert_progress (Some ''t2'') ''p2'' ''t2'' ''l1'' True 20 demo_db of
      Inl e \<Rightarrow> False
    | Inr db1 \<Rightarrow>
        (case upsert_progress (Some ''t2'') ''p3'' ''t2'' ''l1'' True 30 db1 of
           Inl e \<Rightarrow> False
         | Inr db2 \<Rightarrow>
             db_progress db2 \<noteq> db_progress db1 \<and>
             map pr_updated_at
               (filter (\<lambda>row. pr_student_id row = ''t2'' \<and> pr_lesson_id row = ''l1'')
                  (db_progress db1)) = [20] \<and>
             map pr_updated_at
               (filter (\<lambda>row. pr_student_id row = ''t2'' \<and> pr_lesson_id row = ''l1'')
                  (db_progress db2)) = [30]))"
    by code_simp
  then show ?thesis by (auto split: sum.splits)
qed

text \<open>
  In the handler the second completion does not reach the database at all once the
  first one has succeeded: the lesson is then among \<^verbatim>\<open>completedLessonIds\<close>.
\<close>

lemma handleLessonComplete_twice:
  assumes "upsert_progress auth_uid id1 S L True t1 db = Inr db1"
  shows "handleLessonComplete auth_uid id2 t2 S L (handleLessonComplete auth_uid id1 t1 S L (st, db))
           = handleLessonComplete auth_uid id1 t1 S L (st, db)"
  using assms by (simp add: handleLessonComplete_def)

text \<open>The handler never passes an error of the write on to its caller; it logs it.\<close>

lemma handleLessonComplete_logs_error:
  assumes "upsert_progress auth_uid id1 S L True t1 db = Inl e"
    and "L \<notin> set (ps_completedLessonIds st)"
  shows "handleLessonComplete auth_uid id1 t1 S L (st, db)
           = (st\<lparr>ps_console := ps_console st @ [''Error updating progress:'']\<rparr>, db)"
  using assms by (simp add: handleLessonComplete_def)


end
